theory Spec2Isabelle
  imports Complex_Main "HOL-Library.AList" "HOL-Library.Sublist"
begin

section \<open>Python values\<close>

text \<open>
  What \<^verbatim>\<open>json.load\<close> returns.  A JSON object keeps its keys in insertion order, so it is
  an association list; \<^const>\<open>map_of\<close> is the lookup and \<^const>\<open>AList.update\<close> is the item
  assignment \<^verbatim>\<open>d[k] = v\<close> (an existing key keeps its place, a new key goes last).
  Numbers are never inspected by the code.  A string is the list of the bytes of its UTF-8
  encoding: equality and the substring test give on the bytes what they give on the
  characters.  What depends on the characters themselves (lower-casing, stripping, the
  characters a loop visits) is a function of the record \<open>os\<close> below.
\<close>

datatype json =
    JNull
  | JBool bool
  | JNum real
  | JStr string
  | JList "json list"
  | JDict "(string \<times> json) list"

text \<open>
  Subclasses of \<^verbatim>\<open>Exception\<close> that the code can raise.  The last three come out of
  the filesystem and JSON primitives.
\<close>

datatype exn =
    TypeError
  | AttributeError
  | UnboundLocalError
  | ValueError
  | EOFError
  | OSError
  | ShutilError
  | JSONDecodeError

type_synonym path = string

text \<open>
  The dictionaries stored under a category are objects: \<^verbatim>\<open>categories[category] = subcategories\<close>
  stores the default's own dictionary, not a copy, and a later item assignment through either
  name changes both.  They live in a store, by address.  Everything below them (the extension
  lists) is never changed in place and stays a value.  So what is stored under a category is
  \<open>Dict a\<close>, the dictionary at address \<open>a\<close>, or \<open>Atom j\<close>, a value \<open>j\<close> that is not a
  dictionary.
\<close>

type_synonym addr = nat

datatype entry = Dict addr | Atom json

type_synonym dict = "(string \<times> json) list"

section \<open>Console and log\<close>

datatype level = Debug | Info | Warning | Error

datatype msg =
    CategoriesLoadedFromJson
  | CategoriesLoaded json
  | NoJsonFileFound
  | NoCategoriesJsonFound
  | AddedMissingCategory string
  | NotADictionary string
  | AddedMissingSubcategory string string
  | NotAList string string
  | CategoriesSaved
  | OrganizingFolder path
  | FileExtension string
  | ProcessingFile path string
  | Moved path path
  | ErrorMoving exn
  | ErrorMovingFile path exn
  | ErrorMovingFileTo path path exn
  | NewFileType string
  | Moving path path
  | StartingToOrganize path
  | SkippingItself path
  | SkippingFolderItself path
  | MovedTo string string
  | SkippingCategoryFolder string
  | UncategorizedItem string
  | EnterCategory string

datatype event = Print msg | Log level msg

section \<open>The operating system\<close>

text \<open>
  The functions of \<^verbatim>\<open>os\<close>, \<^verbatim>\<open>os.path\<close>, \<^verbatim>\<open>shutil\<close> and \<^verbatim>\<open>json\<close> that the code calls,
  over a filesystem state \<open>'fs\<close>, and the methods of \<^verbatim>\<open>str\<close> whose result depends on
  Unicode: \<^verbatim>\<open>lower\<close>, \<^verbatim>\<open>strip\<close> and the characters a loop over a string visits.  A
  primitive that changes the filesystem returns the exception it raised, if any, and the
  filesystem it left behind.
\<close>

record 'fs os =
  path_join :: "path \<Rightarrow> path list \<Rightarrow> path"
  path_basename :: "path \<Rightarrow> string"
  path_splitext :: "path \<Rightarrow> path \<times> string"
  path_abspath :: "path \<Rightarrow> path"
  path_commonpath :: "path list \<Rightarrow> exn + path"
  path_exists :: "path \<Rightarrow> 'fs \<Rightarrow> bool"
  path_isfile :: "path \<Rightarrow> 'fs \<Rightarrow> bool"
  path_isdir :: "path \<Rightarrow> 'fs \<Rightarrow> bool"
  listdir :: "path \<Rightarrow> 'fs \<Rightarrow> exn + string list"
  makedirs :: "path \<Rightarrow> bool \<Rightarrow> 'fs \<Rightarrow> exn option \<times> 'fs"
  move :: "path \<Rightarrow> path \<Rightarrow> 'fs \<Rightarrow> exn option \<times> 'fs"
  json_load :: "path \<Rightarrow> 'fs \<Rightarrow> exn + json"
  json_dump :: "json \<Rightarrow> path \<Rightarrow> 'fs \<Rightarrow> exn option \<times> 'fs"
  str_lower :: "string \<Rightarrow> string"
  str_strip :: "string \<Rightarrow> string"
  str_chars :: "string \<Rightarrow> string list"

section \<open>file_organizer.py: FileOrganizer\<close>

text \<open>What both programs act on: the filesystem, and what was printed and logged so far.\<close>

record 'fs world =
  fs :: 'fs
  events :: "event list"

record 'fs organizer = "'fs world" +
  folder_to_watch :: path
  json_file :: path
  categories :: "(string \<times> entry) list"
  heap :: "addr \<Rightarrow> dict"
  next_addr :: addr

text \<open>
  \<^verbatim>\<open>self.default_categories\<close> (lines 24-50).  The outer dictionary is never assigned to;
  its eight inner dictionaries are the objects at addresses 0 to 7.
\<close>

definition default_categories :: "(string \<times> addr) list" where
  "default_categories =
    [(''Documents & Data'', 0), (''Development'', 1), (''Executables'', 2), (''Archives'', 3),
     (''Disk Image'', 4), (''Presentations'', 5), (''Spreadsheets'', 6), (''Other'', 7)]"

definition default_heap :: "addr \<Rightarrow> dict" where
  "default_heap =
    (\<lambda>_. [])
    (0 := [(''Documents'', JList (map JStr [''.pdf'', ''.docx'', ''.txt'', ''.odt'', ''.rtf'',
              ''.html'', ''.epub'', ''.md'', ''.tex'', ''.bib''])),
           (''Data (CSV, XML, JSON, etc.)'', JList (map JStr [''.csv'', ''.xml'', ''.json'', ''.yaml'']))],
     1 := [(''Project'', JList (map JStr [''.py'', ''.cpp'', ''.java'', ''.js'', ''.html'', ''.css'',
              ''.rb'', ''.go'', ''.php'']))],
     2 := [(''Installers'', JList (map JStr [''.exe'', ''.msi''])),
           (''Scripts'', JList (map JStr [''.bat'', ''.sh'']))],
     3 := [(''Compressed Files'', JList (map JStr [''.zip'', ''.rar'', ''.tar'', ''.tar.gz'', ''.7z'', ''.gz''])),
           (''Backups'', JList (map JStr [''.bak'', ''.backup'']))],
     4 := [(''ISO & Disk Images'', JList (map JStr [''.iso'', ''.img'']))],
     5 := [(''PowerPoint Files'', JList (map JStr [''.pptx'', ''.key'', ''.ppt'']))],
     6 := [(''Excel and CSV Files'', JList (map JStr [''.xls'', ''.xlsx'', ''.csv'']))],
     7 := [])"

text \<open>What \<^verbatim>\<open>json.dump(categories, ...)\<close> writes: the dictionaries read through the store.\<close>

definition deref :: "(addr \<Rightarrow> dict) \<Rightarrow> entry \<Rightarrow> json" where
  "deref h e = (case e of Dict a \<Rightarrow> JDict (h a) | Atom j \<Rightarrow> j)"

definition dumps :: "(addr \<Rightarrow> dict) \<Rightarrow> (string \<times> entry) list \<Rightarrow> json" where
  "dumps h cats = JDict (map (\<lambda>(c, e). (c, deref h e)) cats)"

text \<open>\<^verbatim>\<open>save_categories\<close> (lines 167-177).\<close>

definition save_categories ::
  "'fs os \<Rightarrow> (string \<times> entry) list \<Rightarrow> 'fs organizer \<Rightarrow> exn option \<times> 'fs organizer" where
  "save_categories os cats st =
    (case json_dump os (dumps (heap st) cats) (json_file st) (fs st) of
       (Some e, fs') \<Rightarrow> (Some e, st\<lparr>fs := fs'\<rparr>)
     | (None, fs') \<Rightarrow>
         (None, st\<lparr>fs := fs',
                   events := events st @ [Print CategoriesSaved, Log Debug CategoriesSaved]\<rparr>))"

text \<open>\<^verbatim>\<open>isinstance(v, list)\<close>.\<close>

fun is_list :: "json \<Rightarrow> bool" where
  "is_list (JList _) = True"
| "is_list _ = False"

text \<open>
  \<^verbatim>\<open>sync_categories\<close>, the body of the inner loop (lines 149-159) for one item of the
  default's dictionary.  \<open>b\<close> is the address of \<^verbatim>\<open>categories[category]\<close>, which the
  loop does not reassign.  The subcategory is a key when line 156 reads it, so that read
  cannot raise.  Line 159 leaves \<^verbatim>\<open>updated\<close> as it is.
\<close>

definition sync_subcategory ::
  "string \<Rightarrow> addr \<Rightarrow> string \<times> json \<Rightarrow> 'fs organizer \<times> bool \<Rightarrow> 'fs organizer \<times> bool" where
  "sync_subcategory category b item = (\<lambda>(st, updated).
    (let subcategory = fst item; extensions = snd item;
         (st1, updated1) =
           (if subcategory \<notin> fst ` set (heap st b)
            then (st\<lparr>heap := (heap st)(b := AList.update subcategory extensions (heap st b)),
                     events := events st @
                       [Print (AddedMissingSubcategory subcategory category),
                        Log Debug (AddedMissingSubcategory subcategory category)]\<rparr>, True)
            else (st, updated));
         st2 =
           (case map_of (heap st1 b) subcategory of
              None \<Rightarrow> st1
            | Some v \<Rightarrow>
                if \<not> is_list v
                then st1\<lparr>heap := (heap st1)(b := AList.update subcategory extensions (heap st1 b)),
                         events := events st1 @
                           [Print (NotAList subcategory category),
                            Log Warning (NotAList subcategory category)]\<rparr>
                else st1)
     in (st2, updated1)))"

text \<open>
  The inner loop (line 148) over \<^verbatim>\<open>subcategories.items()\<close>.  When \<open>b\<close> is the default's
  own dictionary every key is found and nothing is inserted, so the dictionary being
  iterated never changes size.
\<close>

fun sync_subcategories ::
  "string \<Rightarrow> addr \<Rightarrow> dict \<Rightarrow> 'fs organizer \<times> bool \<Rightarrow> 'fs organizer \<times> bool" where
  "sync_subcategories category b [] acc = acc"
| "sync_subcategories category b (item # rest) acc =
    sync_subcategories category b rest (sync_subcategory category b item acc)"

text \<open>The body of the outer loop (lines 134-159) for one default category.\<close>

definition sync_category ::
  "string \<times> addr \<Rightarrow> (string \<times> entry) list \<times> 'fs organizer \<times> bool \<Rightarrow>
   (string \<times> entry) list \<times> 'fs organizer \<times> bool" where
  "sync_category item = (\<lambda>(cats, st, updated).
    (let category = fst item; a = snd item
     in case map_of cats category of
          None \<Rightarrow>
            (AList.update category (Dict a) cats,
             st\<lparr>events := events st @
                  [Print (AddedMissingCategory category), Log Debug (AddedMissingCategory category)]\<rparr>,
             True)
        | Some v \<Rightarrow>
            (let (b, cats1, st1, updated1) =
                   (case v of
                      Dict b \<Rightarrow> (b, cats, st, updated)
                    | Atom _ \<Rightarrow>
                        (a, AList.update category (Dict a) cats,
                         st\<lparr>events := events st @
                              [Print (NotADictionary category),
                               Log Warning (NotADictionary category)]\<rparr>,
                         True));
                 (st2, updated2) = sync_subcategories category b (heap st1 a) (st1, updated1)
             in (cats1, st2, updated2))))"

text \<open>The outer loop (line 133) over \<^verbatim>\<open>self.default_categories.items()\<close>.\<close>

fun sync_loop ::
  "(string \<times> addr) list \<Rightarrow> (string \<times> entry) list \<times> 'fs organizer \<times> bool \<Rightarrow>
   (string \<times> entry) list \<times> 'fs organizer \<times> bool" where
  "sync_loop [] acc = acc"
| "sync_loop (item # rest) acc = sync_loop rest (sync_category item acc)"

text \<open>\<^verbatim>\<open>sync_categories\<close> (lines 131-165): the loop, then the save when something was added.\<close>

definition sync_categories ::
  "'fs os \<Rightarrow> (string \<times> entry) list \<Rightarrow> 'fs organizer \<Rightarrow>
   (exn + (string \<times> entry) list) \<times> 'fs organizer" where
  "sync_categories os cats st =
    (let (cats', st', updated) = sync_loop default_categories (cats, st, False)
     in if updated
        then (case save_categories os cats' st' of
                (Some e, st'') \<Rightarrow> (Inl e, st'')
              | (None, st'') \<Rightarrow> (Inr cats', st''))
        else (Inr cats', st'))"

text \<open>
  \<^verbatim>\<open>json.load\<close> builds new objects: every category whose value is a JSON object gets a
  dictionary of its own at the next free address.
\<close>

fun alloc_entries ::
  "dict \<Rightarrow> (addr \<Rightarrow> dict) \<times> addr \<Rightarrow> (string \<times> entry) list \<times> (addr \<Rightarrow> dict) \<times> addr" where
  "alloc_entries [] (h, n) = ([], h, n)"
| "alloc_entries ((c, v) # rest) (h, n) =
    (case v of
       JDict d \<Rightarrow>
         (let (es, h', n') = alloc_entries rest (h(n := d), Suc n) in ((c, Dict n) # es, h', n'))
     | _ \<Rightarrow>
         (let (es, h', n') = alloc_entries rest (h, n) in ((c, Atom v) # es, h', n')))"

text \<open>
  \<^verbatim>\<open>load_categories\<close> (lines 86-99).  A file whose top level is not an object makes the
  first round of the loop in \<^verbatim>\<open>sync_categories\<close> raise \<^verbatim>\<open>TypeError\<close>: \<^verbatim>\<open>in\<close> is
  not defined on a number, \<^verbatim>\<open>None\<close> or a boolean, and a list or a string takes no string
  index.  \<^verbatim>\<open>self.default_categories.copy()\<close> is a new outer dictionary holding the same
  inner dictionaries.
\<close>

definition load_categories ::
  "'fs os \<Rightarrow> 'fs organizer \<Rightarrow> (exn + (string \<times> entry) list) \<times> 'fs organizer" where
  "load_categories os st =
    (if path_exists os (json_file st) (fs st)
     then (case json_load os (json_file st) (fs st) of
             Inl e \<Rightarrow> (Inl e, st)
           | Inr j \<Rightarrow>
               (let st1 = st\<lparr>events := events st @
                               [Print CategoriesLoadedFromJson, Log Debug (CategoriesLoaded j)]\<rparr>
                in case j of
                     JDict d \<Rightarrow>
                       (let (cats, h, n) = alloc_entries d (heap st1, next_addr st1)
                        in sync_categories os cats (st1\<lparr>heap := h, next_addr := n\<rparr>))
                   | _ \<Rightarrow> (Inl TypeError, st1)))
     else (let cats = map (\<lambda>(c, a). (c, Dict a)) default_categories
           in case save_categories os cats st of
                (Some e, st') \<Rightarrow> (Inl e, st')
              | (None, st') \<Rightarrow>
                  (Inr cats, st'\<lparr>events := events st' @
                                   [Print NoJsonFileFound, Log Debug NoCategoriesJsonFound]\<rparr>)))"

text \<open>
  \<^verbatim>\<open>__init__\<close> (lines 22-52): the object after line 50, with the default's dictionaries in
  the store and \<^verbatim>\<open>self.categories\<close> not yet set, and then lines 51-52.
\<close>

definition new_organizer :: "path \<Rightarrow> path \<Rightarrow> 'fs \<Rightarrow> 'fs organizer" where
  "new_organizer folder file fs0 =
     \<lparr>fs = fs0, events = [], folder_to_watch = folder, json_file = file,
      categories = [], heap = default_heap, next_addr = 8\<rparr>"

definition init :: "'fs os \<Rightarrow> path \<Rightarrow> path \<Rightarrow> 'fs \<Rightarrow> exn option \<times> 'fs organizer" where
  "init os folder file fs0 =
    (case load_categories os (new_organizer folder file fs0) of
       (Inl e, st) \<Rightarrow> (Some e, st)
     | (Inr cats, st) \<Rightarrow>
         (None, st\<lparr>categories := cats,
                   events := events st @ [Print (OrganizingFolder folder)]\<rparr>))"

text \<open>
  \<^verbatim>\<open>s in v\<close> for a string \<open>s\<close>: membership in a list, substring of a string, key of a
  dictionary; \<^verbatim>\<open>TypeError\<close> on a number, a boolean or \<^verbatim>\<open>None\<close>.
\<close>

fun py_in :: "string \<Rightarrow> json \<Rightarrow> exn + bool" where
  "py_in s (JList xs) = Inr (JStr s \<in> set xs)"
| "py_in s (JStr t) = Inr (sublist s t)"
| "py_in s (JDict d) = Inr (s \<in> fst ` set d)"
| "py_in s _ = Inl TypeError"

text \<open>
  \<^verbatim>\<open>organise_downloads\<close>, lines 225-236: the file goes to the folder of the subcategory
  that matched.  \<^verbatim>\<open>makedirs\<close> is outside the \<^verbatim>\<open>try\<close>; the move is inside it.
\<close>

definition move_to_subcategory ::
  "'fs os \<Rightarrow> path \<Rightarrow> string \<Rightarrow> string \<Rightarrow> 'fs organizer \<Rightarrow> exn option \<times> 'fs organizer" where
  "move_to_subcategory os file_path category subcategory st =
    (let category_path = path_join os (folder_to_watch st) [category, subcategory];
         (r1, fs1) = (if \<not> path_exists os category_path (fs st)
                      then makedirs os category_path False (fs st)
                      else (None, fs st))
     in case r1 of
          Some e \<Rightarrow> (Some e, st\<lparr>fs := fs1\<rparr>)
        | None \<Rightarrow>
            (let new_path = path_join os category_path [path_basename os file_path]
             in case move os file_path new_path fs1 of
                  (None, fs2) \<Rightarrow>
                    (None, st\<lparr>fs := fs2,
                              events := events st @
                                [Print (Moved file_path new_path), Log Info (Moved file_path new_path)]\<rparr>)
                | (Some e, fs2) \<Rightarrow>
                    (None, st\<lparr>fs := fs2,
                              events := events st @
                                [Print (ErrorMoving e), Log Error (ErrorMovingFile file_path e)]\<rparr>)))"

text \<open>
  The inner loop (lines 222-237) over the items of one category's dictionary.  The result is
  \<^verbatim>\<open>category_found\<close>.
\<close>

fun organise_subcategories ::
  "'fs os \<Rightarrow> path \<Rightarrow> string \<Rightarrow> string \<Rightarrow> dict \<Rightarrow> 'fs organizer \<Rightarrow> (exn + bool) \<times> 'fs organizer" where
  "organise_subcategories os file_path file_extension category [] st = (Inr False, st)"
| "organise_subcategories os file_path file_extension category ((subcategory, extensions) # rest) st =
    (case py_in file_extension extensions of
       Inl e \<Rightarrow> (Inl e, st)
     | Inr True \<Rightarrow>
         (case move_to_subcategory os file_path category subcategory st of
            (Some e, st') \<Rightarrow> (Inl e, st')
          | (None, st') \<Rightarrow> (Inr True, st'))
     | Inr False \<Rightarrow> organise_subcategories os file_path file_extension category rest st)"

text \<open>
  The outer loop (lines 221-239) over \<^verbatim>\<open>self.categories.items()\<close>.  A category whose value
  is not a dictionary has no \<^verbatim>\<open>items\<close>.
\<close>

fun organise_categories ::
  "'fs os \<Rightarrow> path \<Rightarrow> string \<Rightarrow> (string \<times> entry) list \<Rightarrow> 'fs organizer \<Rightarrow>
   (exn + bool) \<times> 'fs organizer" where
  "organise_categories os file_path file_extension [] st = (Inr False, st)"
| "organise_categories os file_path file_extension ((category, v) # rest) st =
    (case v of
       Atom _ \<Rightarrow> (Inl AttributeError, st)
     | Dict b \<Rightarrow>
         (case organise_subcategories os file_path file_extension category (heap st b) st of
            (Inl e, st') \<Rightarrow> (Inl e, st')
          | (Inr True, st') \<Rightarrow> (Inr True, st')
          | (Inr False, st') \<Rightarrow> organise_categories os file_path file_extension rest st'))"

text \<open>
  Lines 251-265: save, then move to the \<^verbatim>\<open>Other\<close> folder.  \<^verbatim>\<open>category_path\<close> on line 256
  is assigned on line 226 only, which this path never runs.
\<close>

definition move_to_other ::
  "'fs os \<Rightarrow> path \<Rightarrow> 'fs organizer \<Rightarrow> exn option \<times> 'fs organizer" where
  "move_to_other os file_path st =
    (case save_categories os (categories st) st of
       (Some e, st1) \<Rightarrow> (Some e, st1)
     | (None, st1) \<Rightarrow>
         (let other_path = path_join os (folder_to_watch st1) [''Other'']
          in if \<not> path_exists os other_path (fs st1)
             then (case makedirs os other_path False (fs st1) of
                     (Some e, fs2) \<Rightarrow> (Some e, st1\<lparr>fs := fs2\<rparr>)
                   | (None, fs2) \<Rightarrow> (Some UnboundLocalError, st1\<lparr>fs := fs2\<rparr>))
             else (let new_path = path_join os other_path [path_basename os file_path];
                       st2 = st1\<lparr>events := events st1 @ [Log Debug (Moving file_path new_path)]\<rparr>
                   in case move os file_path new_path (fs st2) of
                        (None, fs3) \<Rightarrow>
                          (None, st2\<lparr>fs := fs3,
                                    events := events st2 @
                                      [Print (Moved file_path new_path),
                                       Log Info (Moved file_path new_path)]\<rparr>)
                      | (Some e, fs3) \<Rightarrow>
                          (None, st2\<lparr>fs := fs3,
                                    events := events st2 @
                                      [Log Error (ErrorMovingFileTo file_path new_path e),
                                       Print (ErrorMoving e)]\<rparr>))))"

text \<open>
  Lines 245-249: the extension becomes a key of \<^verbatim>\<open>Other\<close>.  \<^verbatim>\<open>{}\<close> on line 247 is a new
  dictionary.  Line 249 on a value that is not a dictionary raises \<^verbatim>\<open>TypeError\<close>.
\<close>

definition learn_other :: "string \<Rightarrow> 'fs organizer \<Rightarrow> exn option \<times> 'fs organizer" where
  "learn_other file_extension st =
    (let st1 = (if ''Other'' \<notin> fst ` set (categories st)
                then st\<lparr>categories := AList.update ''Other'' (Dict (next_addr st)) (categories st),
                        heap := (heap st)(next_addr st := []),
                        next_addr := Suc (next_addr st)\<rparr>
                else st)
     in case map_of (categories st1) ''Other'' of
          None \<Rightarrow> (None, st1)
        | Some (Atom j) \<Rightarrow>
            (case py_in file_extension j of
               Inl e \<Rightarrow> (Some e, st1)
             | Inr True \<Rightarrow> (None, st1)
             | Inr False \<Rightarrow> (Some TypeError, st1))
        | Some (Dict b) \<Rightarrow>
            (None,
             if file_extension \<notin> fst ` set (heap st1 b)
             then st1\<lparr>heap := (heap st1)(b := AList.update file_extension (JList []) (heap st1 b))\<rparr>
             else st1))"

text \<open>Lines 242-265, the file type nobody listed.\<close>

definition organise_other ::
  "'fs os \<Rightarrow> path \<Rightarrow> string \<Rightarrow> 'fs organizer \<Rightarrow> exn option \<times> 'fs organizer" where
  "organise_other os file_path file_extension st =
    (case learn_other file_extension
            (st\<lparr>events := events st @
                  [Print (NewFileType file_extension), Log Info (NewFileType file_extension)]\<rparr>) of
       (Some e, st1) \<Rightarrow> (Some e, st1)
     | (None, st1) \<Rightarrow> move_to_other os file_path st1)"

text \<open>\<^verbatim>\<open>organise_downloads\<close> (lines 211-265).\<close>

definition organise_downloads ::
  "'fs os \<Rightarrow> path \<Rightarrow> 'fs organizer \<Rightarrow> exn option \<times> 'fs organizer" where
  "organise_downloads os file_path st =
    (let file_extension = str_lower os (snd (path_splitext os file_path));
         st1 = st\<lparr>events := events st @
                    [Log Debug (FileExtension file_extension),
                     Print (ProcessingFile file_path file_extension),
                     Log Info (ProcessingFile file_path file_extension)]\<rparr>
     in case organise_categories os file_path file_extension (categories st1) st1 of
          (Inl e, st2) \<Rightarrow> (Some e, st2)
        | (Inr True, st2) \<Rightarrow> (None, st2)
        | (Inr False, st2) \<Rightarrow> organise_other os file_path file_extension st2)"

text \<open>\<^verbatim>\<open>organize_files_in_directory\<close>, the loop (lines 300-303) over the names listed.\<close>

fun organize_files ::
  "'fs os \<Rightarrow> string list \<Rightarrow> 'fs organizer \<Rightarrow> exn option \<times> 'fs organizer" where
  "organize_files os [] st = (None, st)"
| "organize_files os (file_name # rest) st =
    (let file_path = path_join os (folder_to_watch st) [file_name]
     in if path_isfile os file_path (fs st)
        then (case organise_downloads os file_path st of
                (Some e, st') \<Rightarrow> (Some e, st')
              | (None, st') \<Rightarrow> organize_files os rest st')
        else organize_files os rest st)"

text \<open>\<^verbatim>\<open>organize_files_in_directory\<close> (lines 299-303).\<close>

definition organize_files_in_directory ::
  "'fs os \<Rightarrow> 'fs organizer \<Rightarrow> exn option \<times> 'fs organizer" where
  "organize_files_in_directory os st =
    (let st1 = st\<lparr>events := events st @ [Print (StartingToOrganize (folder_to_watch st))]\<rparr>
     in case listdir os (folder_to_watch st1) (fs st1) of
          Inl e \<Rightarrow> (Some e, st1)
        | Inr names \<Rightarrow> organize_files os names st1)"

subsection \<open>What the loops compute\<close>

text \<open>
  The search of lines 221-239 without the move: the first subcategory of the first category
  whose value holds the extension.
\<close>

fun resolve_subcategory :: "string \<Rightarrow> dict \<Rightarrow> exn + string option" where
  "resolve_subcategory file_extension [] = Inr None"
| "resolve_subcategory file_extension ((subcategory, extensions) # rest) =
    (case py_in file_extension extensions of
       Inl e \<Rightarrow> Inl e
     | Inr True \<Rightarrow> Inr (Some subcategory)
     | Inr False \<Rightarrow> resolve_subcategory file_extension rest)"

fun resolve :: "(addr \<Rightarrow> dict) \<Rightarrow> string \<Rightarrow> (string \<times> entry) list \<Rightarrow> exn + (string \<times> string) option" where
  "resolve h file_extension [] = Inr None"
| "resolve h file_extension ((category, v) # rest) =
    (case v of
       Atom _ \<Rightarrow> Inl AttributeError
     | Dict b \<Rightarrow>
         (case resolve_subcategory file_extension (h b) of
            Inl e \<Rightarrow> Inl e
          | Inr (Some subcategory) \<Rightarrow> Inr (Some (category, subcategory))
          | Inr None \<Rightarrow> resolve h file_extension rest))"

text \<open>What one round, and all rounds, of the inner loop of \<^verbatim>\<open>sync_categories\<close> do to the
  dictionary at \<open>b\<close>.\<close>

definition sub_dict :: "string \<times> json \<Rightarrow> dict \<Rightarrow> dict" where
  "sub_dict item d =
     (let d1 = (if fst item \<notin> fst ` set d then AList.update (fst item) (snd item) d else d)
      in case map_of d1 (fst item) of
           None \<Rightarrow> d1
         | Some v \<Rightarrow> if \<not> is_list v then AList.update (fst item) (snd item) d1 else d1)"

fun sub_dicts :: "dict \<Rightarrow> dict \<Rightarrow> dict" where
  "sub_dicts [] d = d"
| "sub_dicts (item # rest) d = sub_dicts rest (sub_dict item d)"

text \<open>Nothing is lost from the first schema to the second: keys stay, a category that is a
  dictionary stays that dictionary, a list stays that list.\<close>

definition grows ::
  "(string \<times> entry) list \<Rightarrow> (addr \<Rightarrow> dict) \<Rightarrow> (string \<times> entry) list \<Rightarrow> (addr \<Rightarrow> dict) \<Rightarrow> bool" where
  "grows cats h cats' h' \<longleftrightarrow>
     fst ` set cats \<subseteq> fst ` set cats' \<and>
     (\<forall>c x. map_of cats c = Some (Dict x) \<longrightarrow> map_of cats' c = Some (Dict x)) \<and>
     (\<forall>x. fst ` set (h x) \<subseteq> fst ` set (h' x)) \<and>
     (\<forall>x s xs. map_of (h x) s = Some (JList xs) \<longrightarrow> map_of (h' x) s = Some (JList xs))"

text \<open>The addresses of the default's dictionaries.\<close>

definition default_addrs :: "addr set" where
  "default_addrs = snd ` set default_categories"

text \<open>Every value in the default's dictionaries is a list.\<close>

definition default_lists :: "(addr \<Rightarrow> dict) \<Rightarrow> bool" where
  "default_lists h \<longleftrightarrow> (\<forall>a \<in> default_addrs. \<forall>it \<in> set (h a). is_list (snd it))"

text \<open>A category that holds one of the default's dictionaries holds the one of its own name.\<close>

definition separated :: "(string \<times> entry) list \<Rightarrow> bool" where
  "separated cats \<longleftrightarrow>
     (\<forall>c b. map_of cats c = Some (Dict b) \<longrightarrow> b \<in> default_addrs \<longrightarrow>
            map_of default_categories c = Some b)"

text \<open>The category of a default item is a dictionary in which every subcategory of the
  default is a list.\<close>

definition complete_for :: "(string \<times> entry) list \<Rightarrow> (addr \<Rightarrow> dict) \<Rightarrow> string \<times> addr \<Rightarrow> bool" where
  "complete_for cats h item \<longleftrightarrow>
     (\<exists>b. map_of cats (fst item) = Some (Dict b) \<and>
          (\<forall>it \<in> set (h (snd item)). \<exists>xs. map_of (h b) (fst it) = Some (JList xs)))"

text \<open>The default schema as \<^verbatim>\<open>json.dump\<close> would write it, read through a store.\<close>

definition default_schema :: "(addr \<Rightarrow> dict) \<Rightarrow> json" where
  "default_schema h = dumps h (map (\<lambda>(c, a). (c, Dict a)) default_categories)"


section \<open>file_organiser_documents.py: MappingManager, FileMover, FolderOrganizer\<close>

text \<open>
  The mapping is whatever \<^verbatim>\<open>json.load\<close> returned.  Nothing here shares an object with
  anything else, so the mapping is a value.  \<open>stdin\<close> holds the lines \<^verbatim>\<open>input\<close> will read.
\<close>

record 'fs folder_organizer = "'fs world" +
  source_folder :: path
  file_path :: path
  mapping :: json
  stdin :: "string list"

text \<open>The dictionary \<^verbatim>\<open>load_mapping\<close> returns when there is no file (lines 17-25).\<close>

definition default_mapping :: json where
  "default_mapping = JDict
    [(''University'', JList (map JStr [''UOW'', ''Scanned Documents'', ''SupportingDocumentation''])),
     (''Personal'', JList (map JStr [''invitation'', ''21st''])),
     (''Gaming'', JList (map JStr [''Gaming'', ''WB Games'', ''Horizon Forbidden West'', ''My Games''])),
     (''Miscellaneous'', JList []),
     (''Code'', JList (map JStr [''Python Scripts'', ''GitHub'', ''QtDesignStudio'', ''Robocode'',
        ''Visual Studio 2022''])),
     (''Software'', JList (map JStr [''Blackmagic Design'', ''MAXON'', ''Custom Office Templates''])),
     (''Backups'', JList (map JStr [''Anki Backup'']))]"

text \<open>\<^verbatim>\<open>load_mapping\<close> (lines 14-25).\<close>

definition load_mapping :: "'fs os \<Rightarrow> path \<Rightarrow> 'fs \<Rightarrow> (exn + json) \<times> 'fs" where
  "load_mapping os file fs0 =
    (if path_exists os file fs0 then (json_load os file fs0, fs0) else (Inr default_mapping, fs0))"

text \<open>\<^verbatim>\<open>MappingManager.__init__\<close> and \<^verbatim>\<open>FolderOrganizer.__init__\<close> (lines 9-10, 64-66).\<close>

definition init_folder_organizer ::
  "'fs os \<Rightarrow> path \<Rightarrow> path \<Rightarrow> string list \<Rightarrow> 'fs \<Rightarrow> exn + 'fs folder_organizer" where
  "init_folder_organizer os source file lines fs0 =
    (case load_mapping os file fs0 of
       (Inl e, _) \<Rightarrow> Inl e
     | (Inr m, fs1) \<Rightarrow>
         Inr \<lparr>fs = fs1, events = [], source_folder = source, file_path = file,
              mapping = m, stdin = lines\<rparr>)"














section \<open>A filesystem to run the programs on\<close>

text \<open>
  One instance of the operating system, with POSIX paths, the working directory \<^verbatim>\<open>/\<close> and no
  symbolic links: a table from the absolute paths of the nodes to the nodes, the paths the
  system refuses to move, and a journal of the calls that can change the table.  The string
  methods are those of Python on ASCII strings, one character a byte; the runs below use no
  other strings.
\<close>

datatype node = Directory | Regular | Json json

datatype call = Makedirs path | Move path path | Dump path

record sim_fs =
  nodes :: "(path \<times> node) list"
  locked :: "path list"
  calls :: "call list"

definition sim_lower_char :: "char \<Rightarrow> char" where
  "sim_lower_char c =
     (if 65 \<le> (of_char c :: nat) \<and> (of_char c :: nat) \<le> 90 then char_of (of_char c + (32 :: nat)) else c)"

definition sim_lower :: "string \<Rightarrow> string" where
  "sim_lower s = map sim_lower_char s"

definition sim_is_space :: "char \<Rightarrow> bool" where
  "sim_is_space c \<longleftrightarrow>
     (of_char c :: nat) = 32 \<or> (9 \<le> (of_char c :: nat) \<and> (of_char c :: nat) \<le> 13) \<or>
     (28 \<le> (of_char c :: nat) \<and> (of_char c :: nat) \<le> 31)"

definition sim_strip :: "string \<Rightarrow> string" where
  "sim_strip s = rev (dropWhile sim_is_space (rev (dropWhile sim_is_space s)))"

definition sim_chars :: "string \<Rightarrow> string list" where
  "sim_chars s = map (\<lambda>c. [c]) s"

definition sim_join2 :: "path \<Rightarrow> path \<Rightarrow> path" where
  "sim_join2 a b =
     (if b \<noteq> [] \<and> hd b = CHR ''/'' then b
      else if a = [] \<or> last a = CHR ''/'' then a @ b
      else a @ ''/'' @ b)"

definition sim_join :: "path \<Rightarrow> path list \<Rightarrow> path" where
  "sim_join a ps = foldl sim_join2 a ps"

definition sim_basename :: "path \<Rightarrow> string" where
  "sim_basename p = rev (takeWhile (\<lambda>c. c \<noteq> CHR ''/'') (rev p))"

definition rstrip_slash :: "path \<Rightarrow> path" where
  "rstrip_slash p = rev (dropWhile (\<lambda>c. c = CHR ''/'') (rev p))"

text \<open>\<^verbatim>\<open>os.path.split\<close>: the head loses its trailing slashes unless it is made of slashes.\<close>

definition sim_split :: "path \<Rightarrow> path \<times> string" where
  "sim_split p =
     (let head = take (length p - length (sim_basename p)) p
      in (if rstrip_slash head = [] then head else rstrip_slash head, sim_basename p))"

definition sim_splitext :: "path \<Rightarrow> path \<times> string" where
  "sim_splitext p =
     (let b = sim_basename p;
          e = takeWhile (\<lambda>c. c \<noteq> CHR ''.'') (rev b)
      in if CHR ''.'' \<in> set b \<and> (\<exists>c \<in> set (take (length b - length e - 1) b). c \<noteq> CHR ''.'')
         then (take (length p - length e - 1) p, CHR ''.'' # rev e)
         else (p, []))"

fun split_slash :: "path \<Rightarrow> string list" where
  "split_slash [] = [[]]"
| "split_slash (c # cs) =
     (if c = CHR ''/'' then [] # split_slash cs
      else (case split_slash cs of [] \<Rightarrow> [[c]] | w # ws \<Rightarrow> (c # w) # ws))"

definition join_slash :: "string list \<Rightarrow> path" where
  "join_slash comps = (if comps = [] then ''/'' else concat (map (\<lambda>c. CHR ''/'' # c) comps))"

text \<open>
  \<^verbatim>\<open>os.path.abspath\<close> works on the text of the path alone: \<^verbatim>\<open>..\<close> drops the component before
  it, whether or not that names anything.
\<close>

definition sim_components :: "path \<Rightarrow> string list" where
  "sim_components p =
     foldl (\<lambda>acc c. if c = [] \<or> c = ''.'' then acc
                     else if c = ''..'' then butlast acc else acc @ [c])
       [] (split_slash p)"

definition sim_abspath :: "path \<Rightarrow> path" where
  "sim_abspath p = join_slash (sim_components p)"

definition sim_parent :: "path \<Rightarrow> path" where
  "sim_parent p = join_slash (butlast (sim_components p))"

fun common_prefix :: "'a list \<Rightarrow> 'a list \<Rightarrow> 'a list" where
  "common_prefix (x # xs) (y # ys) = (if x = y then x # common_prefix xs ys else [])"
| "common_prefix _ _ = []"

definition is_abs :: "path \<Rightarrow> bool" where
  "is_abs p \<longleftrightarrow> p \<noteq> [] \<and> hd p = CHR ''/''"

definition sim_commonpath :: "path list \<Rightarrow> exn + path" where
  "sim_commonpath ps =
     (case ps of
        [] \<Rightarrow> Inl ValueError
      | p # qs \<Rightarrow>
          if \<exists>q \<in> set qs. is_abs q \<noteq> is_abs p then Inl ValueError
          else (let comps = (\<lambda>q. filter (\<lambda>c. c \<noteq> [] \<and> c \<noteq> ''.'') (split_slash q));
                    common = foldl common_prefix (comps p) (map comps qs)
                in Inr ((if is_abs p then ''/'' else []) @
                        (if common = [] then [] else tl (concat (map (\<lambda>c. CHR ''/'' # c) common))))))"

text \<open>
  The system itself follows a path one component at a time, and every component, \<^verbatim>\<open>.\<close> and
  \<^verbatim>\<open>..\<close> included, is looked up in a directory that must be there: \<^verbatim>\<open>/d/x/..\<close> names \<^verbatim>\<open>/d\<close>
  only when \<^verbatim>\<open>/d/x\<close> is a directory.  \<open>sim_resolve\<close> gives the absolute path of the node a
  path names, or would name once created.
\<close>

definition dir_at :: "(path \<times> node) list \<Rightarrow> string list \<Rightarrow> bool" where
  "dir_at ns cur \<longleftrightarrow> cur = [] \<or> map_of ns (join_slash cur) = Some Directory"

fun walk :: "(path \<times> node) list \<Rightarrow> string list \<Rightarrow> string list \<Rightarrow> string list option" where
  "walk ns cur [] = Some cur"
| "walk ns cur (c # cs) =
     (if \<not> dir_at ns cur then None
      else walk ns (if c = [] \<or> c = ''.'' then cur
                    else if c = ''..'' then butlast cur else cur @ [c]) cs)"

definition sim_resolve :: "path \<Rightarrow> sim_fs \<Rightarrow> path option" where
  "sim_resolve p t =
     (if p = [] then None else map_option join_slash (walk (nodes t) [] (split_slash p)))"

definition sim_lookup :: "path \<Rightarrow> sim_fs \<Rightarrow> node option" where
  "sim_lookup p t =
     (case sim_resolve p t of
        None \<Rightarrow> None
      | Some k \<Rightarrow> if k = ''/'' then Some Directory else map_of (nodes t) k)"

definition sim_exists :: "path \<Rightarrow> sim_fs \<Rightarrow> bool" where
  "sim_exists p t \<longleftrightarrow> sim_lookup p t \<noteq> None"

definition sim_isdir :: "path \<Rightarrow> sim_fs \<Rightarrow> bool" where
  "sim_isdir p t \<longleftrightarrow> sim_lookup p t = Some Directory"

definition sim_isfile :: "path \<Rightarrow> sim_fs \<Rightarrow> bool" where
  "sim_isfile p t \<longleftrightarrow> sim_exists p t \<and> \<not> sim_isdir p t"

definition sim_listdir :: "path \<Rightarrow> sim_fs \<Rightarrow> exn + string list" where
  "sim_listdir p t =
     (case sim_resolve p t of
        None \<Rightarrow> Inl OSError
      | Some k \<Rightarrow>
          if sim_isdir p t
          then Inr (map (\<lambda>kv. sim_basename (fst kv))
                      (filter (\<lambda>kv. sim_parent (fst kv) = k) (nodes t)))
          else Inl OSError)"

text \<open>\<^verbatim>\<open>os.mkdir\<close>: one directory, in a directory that is there.\<close>

datatype errno = EEXIST | ENOENT

definition sim_mkdir :: "path \<Rightarrow> sim_fs \<Rightarrow> errno option \<times> sim_fs" where
  "sim_mkdir p t =
     (case sim_resolve (if rstrip_slash p = [] then p else rstrip_slash p) t of
        None \<Rightarrow> (Some ENOENT, t)
      | Some k \<Rightarrow>
          if k = ''/'' \<or> map_of (nodes t) k \<noteq> None then (Some EEXIST, t)
          else (None, t\<lparr>nodes := nodes t @ [(k, Directory)]\<rparr>))"

text \<open>
  \<^verbatim>\<open>os.makedirs\<close>, as the library writes it: split the name, make the head first when it is
  not there (a \<^verbatim>\<open>FileExistsError\<close> from that is passed over), stop when the tail is \<^verbatim>\<open>.\<close>,
  then \<^verbatim>\<open>mkdir(name)\<close>, whose error is dropped when \<^verbatim>\<open>exist_ok\<close> is set and the name is a
  directory.
\<close>

definition makedirs_parts :: "path \<Rightarrow> path \<times> string" where
  "makedirs_parts name =
     (if snd (sim_split name) = [] then sim_split (fst (sim_split name)) else sim_split name)"

definition mkdir_last :: "path \<Rightarrow> bool \<Rightarrow> sim_fs \<Rightarrow> errno option \<times> sim_fs" where
  "mkdir_last name exist_ok t =
     (case sim_mkdir name t of
        (None, t1) \<Rightarrow> (None, t1)
      | (Some e, t1) \<Rightarrow> if \<not> exist_ok \<or> \<not> sim_isdir name t1 then (Some e, t1) else (None, t1))"

function makedirs_rec :: "path \<Rightarrow> bool \<Rightarrow> sim_fs \<Rightarrow> errno option \<times> sim_fs" where
  "makedirs_rec name exist_ok t =
     (if fst (makedirs_parts name) \<noteq> [] \<and> snd (makedirs_parts name) \<noteq> [] \<and>
         \<not> sim_exists (fst (makedirs_parts name)) t
      then (case makedirs_rec (fst (makedirs_parts name)) exist_ok t of
              (Some ENOENT, t1) \<Rightarrow> (Some ENOENT, t1)
            | (_, t1) \<Rightarrow>
                if snd (makedirs_parts name) = ''.'' then (None, t1) else mkdir_last name exist_ok t1)
      else mkdir_last name exist_ok t)"
  by pat_completeness auto
termination
proof (relation "measure (\<lambda>(name, exist_ok, t). length name)")
  show "wf (measure (\<lambda>(name, exist_ok, t). length name))"
    by simp
next
  fix name :: path and exist_ok :: bool and t :: sim_fs
  assume a: "fst (makedirs_parts name) \<noteq> [] \<and> snd (makedirs_parts name) \<noteq> [] \<and>
             \<not> sim_exists (fst (makedirs_parts name)) t"
  have r: "length (rstrip_slash q) \<le> length q" for q
    unfolding rstrip_slash_def using length_dropWhile_le [of _ "rev q"] by simp
  have h: "length (fst (sim_split q)) \<le> length q - length (snd (sim_split q))" for q
    using r [of "take (length q - length (sim_basename q)) q"]
    by (simp add: sim_split_def Let_def)
  have b: "length (sim_basename q) \<le> length q" for q
    unfolding sim_basename_def using length_takeWhile_le [of _ "rev q"] by simp
  have s: "snd (sim_split q) = sim_basename q" for q
    by (simp add: sim_split_def Let_def)
  have "length (fst (makedirs_parts name)) < length name"
  proof (cases "snd (sim_split name) = []")
    case True
    then have p: "makedirs_parts name = sim_split (fst (sim_split name))"
      by (simp add: makedirs_parts_def)
    from a p have n: "snd (sim_split (fst (sim_split name))) \<noteq> []"
      by simp
    have "length (fst (sim_split (fst (sim_split name)))) <
          length (fst (sim_split name))"
      using h [of "fst (sim_split name)"] b [of "fst (sim_split name)"] n s [of "fst (sim_split name)"]
      by (cases "sim_basename (fst (sim_split name))") auto
    moreover have "length (fst (sim_split name)) \<le> length name"
      using h [of name] by simp
    ultimately show ?thesis
      using p by simp
  next
    case False
    then have p: "makedirs_parts name = sim_split name"
      by (simp add: makedirs_parts_def)
    show ?thesis
      using h [of name] b [of name] s [of name] False p
      by (cases "sim_basename name") auto
  qed
  then show "((fst (makedirs_parts name), exist_ok, t), (name, exist_ok, t))
             \<in> measure (\<lambda>(name, exist_ok, t). length name)"
    by simp
qed

definition sim_makedirs :: "path \<Rightarrow> bool \<Rightarrow> sim_fs \<Rightarrow> exn option \<times> sim_fs" where
  "sim_makedirs p exist_ok t =
     (case makedirs_rec p exist_ok (t\<lparr>calls := calls t @ [Makedirs p]\<rparr>) of
        (None, t1) \<Rightarrow> (None, t1)
      | (Some e, t1) \<Rightarrow> (Some OSError, t1))"

text \<open>
  \<^verbatim>\<open>shutil.move\<close>: nothing to do when \<open>dst\<close> is the directory \<open>src\<close> itself; into \<open>dst\<close> when
  that is a directory, onto \<open>dst\<close> otherwise, by \<^verbatim>\<open>os.rename\<close>, which does nothing when both names
  are one node, replaces a file, and takes everything below \<open>src\<close> along.
\<close>

definition sim_rename :: "path \<Rightarrow> path \<Rightarrow> sim_fs \<Rightarrow> sim_fs" where
  "sim_rename s d t =
     t\<lparr>nodes :=
         map (\<lambda>kv. if fst kv = s then (d, snd kv)
                    else if prefix (s @ ''/'') (fst kv) then (d @ drop (length s) (fst kv), snd kv)
                    else kv)
           (filter (\<lambda>kv. fst kv \<noteq> d) (nodes t))\<rparr>"

definition sim_move :: "path \<Rightarrow> path \<Rightarrow> sim_fs \<Rightarrow> exn option \<times> sim_fs" where
  "sim_move src dst t =
     (let t1 = t\<lparr>calls := calls t @ [Move src dst]\<rparr>;
          real_dst = (if sim_isdir dst t then sim_join dst [sim_basename (rstrip_slash src)] else dst)
      in case sim_resolve src t of
           None \<Rightarrow> (Some OSError, t1)
         | Some s \<Rightarrow>
             if \<not> sim_exists src t \<or> s \<in> set (map sim_abspath (locked t)) then (Some OSError, t1)
             else if sim_isdir dst t \<and> sim_resolve dst t = Some s then (None, t1)
             else if sim_isdir dst t \<and> sim_exists real_dst t then (Some ShutilError, t1)
             else (case sim_resolve real_dst t of
                     None \<Rightarrow> (Some OSError, t1)
                   | Some d \<Rightarrow>
                       if d = s then (None, t1)
                       else if prefix (s @ ''/'') d then (Some ShutilError, t1)
                       else if sim_isdir src t \<and> map_of (nodes t) d \<noteq> None then (Some OSError, t1)
                       else (None, sim_rename s d t1)))"

definition sim_json_load :: "path \<Rightarrow> sim_fs \<Rightarrow> exn + json" where
  "sim_json_load p t =
     (case sim_lookup p t of
        Some (Json j) \<Rightarrow> Inr j
      | Some Regular \<Rightarrow> Inl JSONDecodeError
      | _ \<Rightarrow> Inl OSError)"

text \<open>\<^verbatim>\<open>open(p, 'w')\<close> and \<^verbatim>\<open>json.dump\<close>: the file is made or replaced, in a directory that is there.\<close>

definition sim_json_dump :: "json \<Rightarrow> path \<Rightarrow> sim_fs \<Rightarrow> exn option \<times> sim_fs" where
  "sim_json_dump j p t =
     (let t1 = t\<lparr>calls := calls t @ [Dump p]\<rparr>
      in case sim_resolve p t of
           None \<Rightarrow> (Some OSError, t1)
         | Some k \<Rightarrow>
             if sim_isdir p t then (Some OSError, t1)
             else (None, t1\<lparr>nodes := AList.update k (Json j) (nodes t)\<rparr>))"

definition sim_os :: "sim_fs os" where
  "sim_os =
     \<lparr>path_join = sim_join, path_basename = sim_basename, path_splitext = sim_splitext,
      path_abspath = sim_abspath, path_commonpath = sim_commonpath, path_exists = sim_exists,
      path_isfile = sim_isfile, path_isdir = sim_isdir, listdir = sim_listdir,
      makedirs = sim_makedirs, move = sim_move, json_load = sim_json_load,
      json_dump = sim_json_dump, str_lower = sim_lower, str_strip = sim_strip,
      str_chars = sim_chars\<rparr>"

section \<open>Runs\<close>

text \<open>The schema of the doctests, loaded into a new organizer over a folder with one file.\<close>

definition w_fs :: sim_fs where
  "w_fs = \<lparr>nodes = [(''/w'', Directory), (''/w/a.tmp'', Regular)], locked = [], calls = []\<rparr>"

definition w_L :: dict where
  "w_L = [(''TestCategory'', JDict [(''Subcategory'', JList [JStr ''.tmp''])])]"

definition w_cats :: "(string \<times> entry) list" where
  "w_cats = [(''TestCategory'', Dict 8)]"

definition w_heap :: "addr \<Rightarrow> dict" where
  "w_heap = default_heap(8 := [(''Subcategory'', JList [JStr ''.tmp''])])"

definition w_st :: "sim_fs organizer" where
  "w_st = new_organizer ''/w'' ''/c.json'' w_fs"

definition w_cats1 :: "(string \<times> entry) list" where
  "w_cats1 =
     [(''TestCategory'', Dict 8), (''Documents & Data'', Dict 0), (''Development'', Dict 1),
      (''Executables'', Dict 2), (''Archives'', Dict 3), (''Disk Image'', Dict 4),
      (''Presentations'', Dict 5), (''Spreadsheets'', Dict 6), (''Other'', Dict 7)]"

text \<open>A schema file whose list of installers is empty, next to an installer.\<close>

definition c1_fs :: sim_fs where
  "c1_fs = \<lparr>nodes = [(''/w'', Directory), (''/w/setup.exe'', Regular),
     (''/c.json'', Json (JDict [(''Executables'', JDict [(''Installers'', JList [])])]))],
     locked = [], calls = []\<rparr>"

definition c1_st :: "sim_fs organizer" where
  "c1_st = snd (init sim_os ''/w'' ''/c.json'' c1_fs)"



















text \<open>No schema file and no mapping file.\<close>

definition c7_fs :: sim_fs where
  "c7_fs = \<lparr>nodes = [(''/d'', Directory)], locked = [], calls = []\<rparr>"

definition c8_fs :: sim_fs where
  "c8_fs = \<lparr>nodes = [(''/w'', Directory), (''/w/Other'', Directory), (''/w/a.xyz'', Regular), (''/w/b.XYZ'', Regular)],
     locked = [], calls = []\<rparr>"

definition c8_st :: "sim_fs organizer" where
  "c8_st = snd (init sim_os ''/w'' ''/c.json'' c8_fs)"

definition c7_fs' :: sim_fs where
  "c7_fs' = snd (json_dump sim_os (default_schema default_heap) ''/c.json'' c8_fs)"





text \<open>No schema file and no \<^verbatim>\<open>Other\<close> folder.\<close>

definition c9_fs :: sim_fs where
  "c9_fs = \<lparr>nodes = [(''/w'', Directory), (''/w/a.xyz'', Regular), (''/w/b.pdf'', Regular)],
     locked = [], calls = []\<rparr>"

definition c9_st :: "sim_fs organizer" where
  "c9_st = snd (init sim_os ''/w'' ''/c.json'' c9_fs)"

section \<open>The loops of sync_categories\<close>

lemma heap_sync_subcategory:
  "heap (fst (sync_subcategory c b item (st, u))) = (heap st)(b := sub_dict item (heap st b))"
  by (auto simp: sync_subcategory_def sub_dict_def Let_def split: option.splits)

lemma fields_sync_subcategory:
  "fs (fst (sync_subcategory c b item acc)) = fs (fst acc) \<and>
   json_file (fst (sync_subcategory c b item acc)) = json_file (fst acc) \<and>
   folder_to_watch (fst (sync_subcategory c b item acc)) = folder_to_watch (fst acc) \<and>
   next_addr (fst (sync_subcategory c b item acc)) = next_addr (fst acc) \<and>
   categories (fst (sync_subcategory c b item acc)) = categories (fst acc)"
  by (cases acc) (auto simp: sync_subcategory_def Let_def split: option.splits)

lemma keys_sub_dict: "fst ` set (sub_dict item d) = insert (fst item) (fst ` set d)"
  by (auto simp: sub_dict_def Let_def dom_update split: option.splits)

lemma list_sub_dict:
  "map_of d s = Some (JList xs) \<Longrightarrow> map_of (sub_dict item d) s = Some (JList xs)"
  by (auto simp: sub_dict_def Let_def update_conv' map_of_eq_None_iff[symmetric] split: option.splits)

lemma sub_dict_noop:
  "map_of d (fst item) = Some (JList xs) \<Longrightarrow> sub_dict item d = d"
  by (auto simp: sub_dict_def Let_def map_of_eq_None_iff[symmetric] split: option.splits)

lemma sub_dict_complete:
  "is_list (snd item) \<Longrightarrow> \<exists>xs. map_of (sub_dict item d) (fst item) = Some (JList xs)"
proof -
  assume "is_list (snd item)"
  then obtain ys where ys: "snd item = JList ys" by (cases "snd item") auto
  show ?thesis
  proof (cases "map_of d (fst item)")
    case None
    then show ?thesis
      by (simp add: sub_dict_def Let_def update_conv' map_of_eq_None_iff[symmetric] ys)
  next
    case (Some v)
    then show ?thesis
      by (cases v) (simp_all add: sub_dict_def Let_def update_conv' map_of_eq_None_iff[symmetric] ys)
  qed
qed

lemma sync_subcategory_noop:
  "map_of (heap st b) (fst item) = Some (JList xs) \<Longrightarrow> sync_subcategory c b item (st, u) = (st, u)"
  by (auto simp: sync_subcategory_def Let_def map_of_eq_None_iff[symmetric])

lemma heap_sync_subcategories:
  "heap (fst (sync_subcategories c b items acc)) =
   (heap (fst acc))(b := sub_dicts items (heap (fst acc) b))"
proof (induction items arbitrary: acc)
  case Nil then show ?case by simp
next
  case (Cons item items)
  obtain st u where acc: "acc = (st, u)" by (cases acc)
  show ?case by (simp add: Cons.IH acc heap_sync_subcategory fun_eq_iff)
qed

lemma fields_sync_subcategories:
  "fs (fst (sync_subcategories c b items acc)) = fs (fst acc) \<and>
   json_file (fst (sync_subcategories c b items acc)) = json_file (fst acc) \<and>
   folder_to_watch (fst (sync_subcategories c b items acc)) = folder_to_watch (fst acc) \<and>
   next_addr (fst (sync_subcategories c b items acc)) = next_addr (fst acc) \<and>
   categories (fst (sync_subcategories c b items acc)) = categories (fst acc)"
  by (induction items arbitrary: acc) (simp_all add: fields_sync_subcategory)

lemma keys_sub_dicts: "fst ` set (sub_dicts items d) = fst ` set items \<union> fst ` set d"
  by (induction items arbitrary: d) (auto simp: keys_sub_dict)

lemma list_sub_dicts:
  "map_of d s = Some (JList xs) \<Longrightarrow> map_of (sub_dicts items d) s = Some (JList xs)"
  by (induction items arbitrary: d) (auto simp: list_sub_dict)

lemma sub_dicts_complete:
  "\<forall>it \<in> set items. is_list (snd it) \<Longrightarrow> it \<in> set items \<Longrightarrow>
   \<exists>xs. map_of (sub_dicts items d) (fst it) = Some (JList xs)"
proof (induction items arbitrary: d)
  case Nil then show ?case by simp
next
  case (Cons item items)
  show ?case
  proof (cases "it \<in> set items")
    case True
    with Cons show ?thesis by simp
  next
    case False
    with Cons.prems have eq: "it = item" and l: "is_list (snd item)" by auto
    from sub_dict_complete[OF l] obtain xs where "map_of (sub_dict item d) (fst item) = Some (JList xs)" ..
    then show ?thesis by (auto simp: eq list_sub_dicts)
  qed
qed

lemma sub_dicts_noop:
  "\<forall>it \<in> set items. \<exists>xs. map_of d (fst it) = Some (JList xs) \<Longrightarrow> sub_dicts items d = d"
  by (induction items) (auto simp: sub_dict_noop)

lemma sync_subcategories_noop:
  "\<forall>it \<in> set items. \<exists>xs. map_of (heap st b) (fst it) = Some (JList xs) \<Longrightarrow>
   sync_subcategories c b items (st, u) = (st, u)"
  by (induction items) (auto simp: sync_subcategory_noop)

lemma cats_sync_category:
  "fst (sync_category item (cats, st, u)) =
   (case map_of cats (fst item) of
      Some (Dict b) \<Rightarrow> cats
    | _ \<Rightarrow> AList.update (fst item) (Dict (snd item)) cats)"
  by (auto simp: sync_category_def Let_def split: option.splits entry.splits prod.splits)

lemma heap_sync_category:
  "heap (fst (snd (sync_category item (cats, st, u)))) =
   (case map_of cats (fst item) of
      None \<Rightarrow> heap st
    | Some (Dict b) \<Rightarrow> (heap st)(b := sub_dicts (heap st (snd item)) (heap st b))
    | Some (Atom _) \<Rightarrow> (heap st)(snd item := sub_dicts (heap st (snd item)) (heap st (snd item))))"
proof (cases "map_of cats (fst item)")
  case None
  then show ?thesis by (simp add: sync_category_def Let_def)
next
  case (Some v)
  show ?thesis
  proof (cases v)
    case (Dict b)
    obtain st2 u2 where r: "sync_subcategories (fst item) b (heap st (snd item)) (st, u) = (st2, u2)"
      by (cases "sync_subcategories (fst item) b (heap st (snd item)) (st, u)")
    have "heap st2 = (heap st)(b := sub_dicts (heap st (snd item)) (heap st b))"
      using heap_sync_subcategories[of "fst item" b "heap st (snd item)" "(st, u)"] r by simp
    then show ?thesis using Some Dict r by (simp add: sync_category_def Let_def)
  next
    case (Atom j)
    let ?st1 = "st\<lparr>events := events st @
                  [Print (NotADictionary (fst item)), Log Warning (NotADictionary (fst item))]\<rparr>"
    obtain st2 u2 where r: "sync_subcategories (fst item) (snd item) (heap st (snd item)) (?st1, True) = (st2, u2)"
      by (cases "sync_subcategories (fst item) (snd item) (heap st (snd item)) (?st1, True)")
    have "heap st2 = (heap st)(snd item := sub_dicts (heap st (snd item)) (heap st (snd item)))"
      using heap_sync_subcategories[of "fst item" "snd item" "heap st (snd item)" "(?st1, True)"] r by simp
    then show ?thesis using Some Atom r by (simp add: sync_category_def Let_def)
  qed
qed

subsection \<open>Nothing is lost\<close>

lemma grows_refl: "grows cats h cats h"
  by (simp add: grows_def)

lemma grows_trans: "grows c1 h1 c2 h2 \<Longrightarrow> grows c2 h2 c3 h3 \<Longrightarrow> grows c1 h1 c3 h3"
  unfolding grows_def
  apply (intro conjI allI impI)
     apply (elim conjE, erule (1) subset_trans)
    apply simp
   apply (elim conjE, rule subset_trans, erule allE, assumption, erule allE, assumption)
  apply simp
  done

lemma grows_sync_category:
  "grows cats (heap st) (fst (sync_category item (cats, st, u)))
     (heap (fst (snd (sync_category item (cats, st, u)))))"
proof (cases "map_of cats (fst item)")
  case None
  have "map_of cats c = Some (Dict x) \<Longrightarrow> c \<noteq> fst item" for c x
    using None by auto
  then show ?thesis
    unfolding grows_def cats_sync_category heap_sync_category
    by (auto simp: None dom_update update_conv')
next
  case (Some v)
  show ?thesis
  proof (cases v)
    case (Dict b)
    show ?thesis
      unfolding grows_def cats_sync_category heap_sync_category
      by (simp add: Some Dict keys_sub_dicts list_sub_dicts)
  next
    case (Atom j)
    have "map_of cats c = Some (Dict x) \<Longrightarrow> c \<noteq> fst item" for c x
      using Some Atom by auto
    then show ?thesis
      unfolding grows_def cats_sync_category heap_sync_category
      by (auto simp: Some Atom dom_update update_conv' keys_sub_dicts list_sub_dicts)
  qed
qed

lemma grows_sync_loop:
  "sync_loop ds (cats, st, u) = (cats', st', u') \<Longrightarrow> grows cats (heap st) cats' (heap st')"
proof (induction ds arbitrary: cats st u)
  case Nil then show ?case by (simp add: grows_refl)
next
  case (Cons item ds)
  obtain c1 s1 u1 where r: "sync_category item (cats, st, u) = (c1, s1, u1)"
    by (cases "sync_category item (cats, st, u)")
  have "grows cats (heap st) c1 (heap s1)"
    using grows_sync_category[of cats st item u] r by simp
  moreover have "grows c1 (heap s1) cats' (heap st')"
    using Cons.prems r by (intro Cons.IH[of c1 s1 u1]) simp
  ultimately show ?case by (rule grows_trans)
qed

lemma alloc_entries_Cons:
  "alloc_entries ((c, v) # d) (h, n) =
     (case v of JDict sub \<Rightarrow>
        ((c, Dict n) # fst (alloc_entries d (h(n := sub), Suc n)), snd (alloc_entries d (h(n := sub), Suc n)))
      | _ \<Rightarrow> ((c, Atom v) # fst (alloc_entries d (h, n)), snd (alloc_entries d (h, n))))"
  by (cases v) (simp_all add: split_beta)

declare alloc_entries.simps(2) [simp del]

lemma alloc_entries_next: "n \<le> snd (snd (alloc_entries d (h, n)))"
proof (induction d arbitrary: h n)
  case Nil then show ?case by simp
next
  case (Cons p d)
  obtain c v where p: "p = (c, v)" by (cases p)
  show ?case
  proof (cases v)
    case (JDict sub)
    have "Suc n \<le> snd (snd (alloc_entries d (h(n := sub), Suc n)))" by (rule Cons.IH)
    then show ?thesis by (simp add: p alloc_entries_Cons JDict)
  qed (simp_all add: p alloc_entries_Cons Cons.IH)
qed

lemma alloc_entries_old: "a < n \<Longrightarrow> fst (snd (alloc_entries d (h, n))) a = h a"
proof (induction d arbitrary: h n)
  case Nil then show ?case by simp
next
  case (Cons p d)
  obtain c v where p: "p = (c, v)" by (cases p)
  show ?case
  proof (cases v)
    case (JDict sub)
    have "fst (snd (alloc_entries d (h(n := sub), Suc n))) a = (h(n := sub)) a"
      using Cons.prems by (intro Cons.IH) simp
    then show ?thesis using Cons.prems by (simp add: p alloc_entries_Cons JDict)
  qed (simp_all add: p alloc_entries_Cons Cons.IH Cons.prems)
qed

lemma alloc_entries_keys: "map fst (fst (alloc_entries d (h, n))) = map fst d"
proof (induction d arbitrary: h n)
  case Nil then show ?case by simp
next
  case (Cons p d)
  obtain c v where p: "p = (c, v)" by (cases p)
  show ?case by (cases v) (simp_all add: p alloc_entries_Cons Cons.IH)
qed

lemma alloc_entries_range:
  "map_of (fst (alloc_entries d (h, n))) c = Some (Dict x) \<Longrightarrow>
   n \<le> x \<and> x < snd (snd (alloc_entries d (h, n)))"
proof (induction d arbitrary: h n)
  case Nil then show ?case by simp
next
  case (Cons p d)
  obtain c' v where p: "p = (c', v)" by (cases p)
  show ?case
  proof (cases v)
    case (JDict sub)
    show ?thesis
    proof (cases "c = c'")
      case True
      with Cons.prems have "x = n" by (simp add: p alloc_entries_Cons JDict)
      moreover have "Suc n \<le> snd (snd (alloc_entries d (h(n := sub), Suc n)))"
        by (rule alloc_entries_next)
      ultimately show ?thesis by (simp add: p alloc_entries_Cons JDict)
    next
      case False
      with Cons.prems have m: "map_of (fst (alloc_entries d (h(n := sub), Suc n))) c = Some (Dict x)"
        by (simp add: p alloc_entries_Cons JDict)
      have "Suc n \<le> x \<and> x < snd (snd (alloc_entries d (h(n := sub), Suc n)))"
        using m by (rule Cons.IH)
      then show ?thesis by (simp add: p alloc_entries_Cons JDict)
    qed
  next
    case JNull
    with Cons.prems have "map_of (fst (alloc_entries d (h, n))) c = Some (Dict x)"
      by (simp add: p alloc_entries_Cons split: if_splits)
    from Cons.IH[OF this] show ?thesis by (simp add: p alloc_entries_Cons JNull)
  next
    case (JBool b)
    with Cons.prems have "map_of (fst (alloc_entries d (h, n))) c = Some (Dict x)"
      by (simp add: p alloc_entries_Cons split: if_splits)
    from Cons.IH[OF this] show ?thesis by (simp add: p alloc_entries_Cons JBool)
  next
    case (JNum r)
    with Cons.prems have "map_of (fst (alloc_entries d (h, n))) c = Some (Dict x)"
      by (simp add: p alloc_entries_Cons split: if_splits)
    from Cons.IH[OF this] show ?thesis by (simp add: p alloc_entries_Cons JNum)
  next
    case (JStr t)
    with Cons.prems have "map_of (fst (alloc_entries d (h, n))) c = Some (Dict x)"
      by (simp add: p alloc_entries_Cons split: if_splits)
    from Cons.IH[OF this] show ?thesis by (simp add: p alloc_entries_Cons JStr)
  next
    case (JList l)
    with Cons.prems have "map_of (fst (alloc_entries d (h, n))) c = Some (Dict x)"
      by (simp add: p alloc_entries_Cons split: if_splits)
    from Cons.IH[OF this] show ?thesis by (simp add: p alloc_entries_Cons JList)
  qed
qed

lemma alloc_entries_dict:
  "map_of d c = Some (JDict sub) \<Longrightarrow>
   \<exists>x. map_of (fst (alloc_entries d (h, n))) c = Some (Dict x) \<and>
       fst (snd (alloc_entries d (h, n))) x = sub"
proof (induction d arbitrary: h n)
  case Nil then show ?case by simp
next
  case (Cons p d)
  obtain c' v where p: "p = (c', v)" by (cases p)
  show ?case
  proof (cases "c = c'")
    case True
    with Cons.prems have v: "v = JDict sub" by (simp add: p)
    have "fst (snd (alloc_entries d (h(n := sub), Suc n))) n = (h(n := sub)) n"
      by (rule alloc_entries_old) simp
    then show ?thesis by (simp add: p alloc_entries_Cons v True)
  next
    case False
    with Cons.prems have m: "map_of d c = Some (JDict sub)" by (simp add: p)
    show ?thesis
    proof (cases v)
      case (JDict sub')
      have "\<exists>x. map_of (fst (alloc_entries d (h(n := sub'), Suc n))) c = Some (Dict x) \<and>
                fst (snd (alloc_entries d (h(n := sub'), Suc n))) x = sub"
        using m by (rule Cons.IH)
      then show ?thesis using False by (simp add: p alloc_entries_Cons JDict)
    qed (use Cons.IH[OF m, of h n] False in \<open>simp_all add: p alloc_entries_Cons\<close>)
  qed
qed

subsection \<open>After one run nothing is left to do\<close>

lemma default_categories_map_of:
  "item \<in> set default_categories \<Longrightarrow> map_of default_categories (fst item) = Some (snd item)"
proof -
  have "distinct (map fst default_categories)" by (simp add: default_categories_def)
  then show "item \<in> set default_categories \<Longrightarrow> ?thesis"
    by (cases item) simp
qed

lemma default_lists_self:
  assumes "default_lists h" "a \<in> default_addrs" "it \<in> set (h a)"
  shows "\<exists>xs. map_of (h a) (fst it) = Some (JList xs)"
proof -
  have "fst it \<in> fst ` set (h a)" using assms(3) by (rule imageI)
  then obtain v where v: "map_of (h a) (fst it) = Some v"
    by (cases "map_of (h a) (fst it)") (auto simp: map_of_eq_None_iff)
  then have "(fst it, v) \<in> set (h a)" by (rule map_of_SomeD)
  with assms(1,2) have "is_list v" unfolding default_lists_def by fastforce
  then obtain xs where "v = JList xs" by (cases v) auto
  with v show ?thesis by simp
qed

lemma sync_category_noop:
  assumes "complete_for cats (heap st) item"
  shows "sync_category item (cats, st, u) = (cats, st, u)"
proof -
  from assms obtain b where b: "map_of cats (fst item) = Some (Dict b)"
    and l: "\<forall>it \<in> set (heap st (snd item)). \<exists>xs. map_of (heap st b) (fst it) = Some (JList xs)"
    unfolding complete_for_def by blast
  have "sync_subcategories (fst item) b (heap st (snd item)) (st, u) = (st, u)"
    using l by (rule sync_subcategories_noop)
  then show ?thesis by (simp add: sync_category_def Let_def b)
qed

lemma sync_loop_noop:
  "\<forall>item \<in> set ds. complete_for cats (heap st) item \<Longrightarrow> sync_loop ds (cats, st, u) = (cats, st, u)"
  by (induction ds) (simp_all add: sync_category_noop)

lemma complete_for_grows:
  assumes "complete_for cats h item" "grows cats h cats' h'" "h' (snd item) = h (snd item)"
  shows "complete_for cats' h' item"
proof -
  from assms(1) obtain b where b: "map_of cats (fst item) = Some (Dict b)"
    and l: "\<forall>it \<in> set (h (snd item)). \<exists>xs. map_of (h b) (fst it) = Some (JList xs)"
    unfolding complete_for_def by blast
  from assms(2) b have b': "map_of cats' (fst item) = Some (Dict b)"
    unfolding grows_def by blast
  have "\<exists>xs. map_of (h' b) (fst it) = Some (JList xs)" if "it \<in> set (h' (snd item))" for it
  proof -
    from that assms(3) l obtain xs where "map_of (h b) (fst it) = Some (JList xs)" by auto
    with assms(2) have "map_of (h' b) (fst it) = Some (JList xs)" unfolding grows_def by blast
    then show ?thesis ..
  qed
  with b' show ?thesis unfolding complete_for_def by blast
qed

lemma sync_category_step:
  assumes item: "item \<in> set default_categories"
    and sep: "separated cats" and dl: "default_lists (heap st)"
  shows "(\<forall>x \<in> default_addrs. heap (fst (snd (sync_category item (cats, st, u)))) x = heap st x) \<and>
         separated (fst (sync_category item (cats, st, u))) \<and>
         complete_for (fst (sync_category item (cats, st, u)))
            (heap (fst (snd (sync_category item (cats, st, u))))) item"
proof -
  let ?c = "fst item" and ?a = "snd item"
  have a: "?a \<in> default_addrs" using item by (simp add: default_addrs_def)
  have D: "map_of default_categories ?c = Some ?a" using item by (rule default_categories_map_of)
  have self: "\<forall>it \<in> set (heap st ?a). \<exists>xs. map_of (heap st ?a) (fst it) = Some (JList xs)"
    using default_lists_self[OF dl a] by blast
  have noop: "sub_dicts (heap st ?a) (heap st ?a) = heap st ?a"
    using self by (rule sub_dicts_noop)
  have sep_upd: "separated (AList.update ?c (Dict ?a) cats)"
    using sep D unfolding separated_def by (auto simp: update_conv')
  have comp_upd: "complete_for (AList.update ?c (Dict ?a) cats) (heap st) item"
    using self unfolding complete_for_def by (auto simp: update_conv')
  show ?thesis
  proof (cases "map_of cats ?c")
    case None
    then show ?thesis using sep_upd comp_upd
      by (simp add: cats_sync_category heap_sync_category)
  next
    case (Some v)
    show ?thesis
    proof (cases v)
      case (Atom j)
      then show ?thesis using Some sep_upd comp_upd noop
        by (simp add: cats_sync_category heap_sync_category)
    next
      case (Dict b)
      show ?thesis
      proof (cases "b \<in> default_addrs")
        case True
        with sep Some Dict D have "b = ?a" unfolding separated_def by auto
        moreover have "complete_for cats (heap st) item"
          using self Some Dict \<open>b = ?a\<close> unfolding complete_for_def by auto
        ultimately show ?thesis using Some Dict sep noop
          by (simp add: cats_sync_category heap_sync_category)
      next
        case False
        then have ne: "b \<noteq> ?a" using a by auto
        have all: "\<forall>it \<in> set (heap st ?a). is_list (snd it)"
          using dl a unfolding default_lists_def by blast
        have "complete_for cats ((heap st)(b := sub_dicts (heap st ?a) (heap st b))) item"
          unfolding complete_for_def using Some Dict ne sub_dicts_complete[OF all]
          by auto
        then show ?thesis using Some Dict sep False
          by (auto simp: cats_sync_category heap_sync_category)
      qed
    qed
  qed
qed

lemma sync_loop_complete:
  "set ds \<subseteq> set default_categories \<Longrightarrow> separated cats \<Longrightarrow> default_lists (heap st) \<Longrightarrow>
   sync_loop ds (cats, st, u) = (cats', st', u') \<Longrightarrow>
   (\<forall>x \<in> default_addrs. heap st' x = heap st x) \<and> separated cats' \<and>
   (\<forall>item \<in> set ds. complete_for cats' (heap st') item)"
proof (induction ds arbitrary: cats st u)
  case Nil then show ?case by simp
next
  case (Cons item ds)
  obtain c1 s1 u1 where r: "sync_category item (cats, st, u) = (c1, s1, u1)"
    by (cases "sync_category item (cats, st, u)")
  have item: "item \<in> set default_categories" using Cons.prems(1) by simp
  from sync_category_step[OF item Cons.prems(2,3), of u] r
  have h1: "\<forall>x \<in> default_addrs. heap s1 x = heap st x" and sep1: "separated c1"
    and comp1: "complete_for c1 (heap s1) item" by simp_all
  have dl1: "default_lists (heap s1)" using Cons.prems(3) h1 by (simp add: default_lists_def)
  have loop: "sync_loop ds (c1, s1, u1) = (cats', st', u')" using Cons.prems(4) r by simp
  have sub: "set ds \<subseteq> set default_categories" using Cons.prems(1) by simp
  from Cons.IH[OF sub sep1 dl1 loop]
  have h2: "\<forall>x \<in> default_addrs. heap st' x = heap s1 x" and sep2: "separated cats'"
    and comp2: "\<forall>item \<in> set ds. complete_for cats' (heap st') item" by simp_all
  have g: "grows c1 (heap s1) cats' (heap st')" using loop by (rule grows_sync_loop)
  have "snd item \<in> default_addrs" using item by (simp add: default_addrs_def)
  with h2 have "heap st' (snd item) = heap s1 (snd item)" by simp
  with comp1 g have "complete_for cats' (heap st') item" by (rule complete_for_grows)
  with h1 h2 sep2 comp2 show ?case by simp
qed

lemma heap_save_categories: "heap (snd (save_categories os cats st)) = heap st"
  by (simp add: save_categories_def split: prod.splits option.splits)

lemma sync_categories_Inr:
  assumes "sync_categories os cats st = (Inr cats', st')"
  shows "fst (sync_loop default_categories (cats, st, False)) = cats' \<and>
         heap st' = heap (fst (snd (sync_loop default_categories (cats, st, False))))"
proof -
  obtain c1 s1 u1 where r: "sync_loop default_categories (cats, st, False) = (c1, s1, u1)"
    by (cases "sync_loop default_categories (cats, st, False)")
  show ?thesis
  proof (cases u1)
    case False
    with assms r show ?thesis by (simp add: sync_categories_def)
  next
    case True
    obtain e s2 where sv: "save_categories os c1 s1 = (e, s2)" by (cases "save_categories os c1 s1")
    have "heap s2 = heap s1" using heap_save_categories[of os c1 s1] sv by simp
    with assms r True sv show ?thesis
      by (cases e) (simp_all add: sync_categories_def)
  qed
qed

lemma separated_alloc:
  assumes "\<forall>a \<in> default_addrs. a < n"
  shows "separated (fst (alloc_entries L (h, n)))"
  unfolding separated_def
proof (intro allI impI)
  fix c b
  assume "map_of (fst (alloc_entries L (h, n))) c = Some (Dict b)" and b: "b \<in> default_addrs"
  then have "n \<le> b" using alloc_entries_range by blast
  with assms b show "map_of default_categories c = Some b" by fastforce
qed

lemma default_lists_alloc:
  assumes "\<forall>a \<in> default_addrs. a < n" "default_lists h"
  shows "default_lists (fst (snd (alloc_entries L (h, n))))"
  using assms by (simp add: default_lists_def alloc_entries_old)

lemma sync_categories_covers_default_keys:
  assumes alloc: "alloc_entries L (heap st, next_addr st) = (cats, h, n)"
    and stored: "default_addrs \<subseteq> {..<next_addr st}"
    and lists: "default_lists (heap st)"
    and sync: "sync_categories os cats (st\<lparr>heap := h, next_addr := n\<rparr>) = (Inr cats', st')"
    and item: "(c, a) \<in> set default_categories"
  shows "heap st' a = heap st a \<and>
         (\<exists>b. map_of cats' c = Some (Dict b) \<and>
              (\<forall>(s, x) \<in> set (heap st a). \<exists>xs. map_of (heap st' b) s = Some (JList xs)))"
proof -
  let ?st = "st\<lparr>heap := h, next_addr := n\<rparr>"
  obtain c1 s1 u1 where r: "sync_loop default_categories (cats, ?st, False) = (c1, s1, u1)"
    by (cases "sync_loop default_categories (cats, ?st, False)")
  from sync_categories_Inr[OF sync] r have eq: "c1 = cats'" "heap st' = heap s1" by simp_all
  have fresh: "\<forall>a \<in> default_addrs. a < next_addr st" using stored by auto
  have sep: "separated cats" using separated_alloc[OF fresh, of L "heap st"] alloc by simp
  have dl: "default_lists (heap ?st)" using default_lists_alloc[OF fresh lists, of L] alloc by simp
  have a: "a \<in> default_addrs" using item by (force simp: default_addrs_def)
  have old: "h a = heap st a"
    using alloc_entries_old[of a "next_addr st" L "heap st"] fresh a alloc by simp
  from sync_loop_complete[OF subset_refl sep dl r] item a
  have "heap s1 a = h a" and "complete_for c1 (heap s1) (c, a)" by auto
  then show ?thesis using old unfolding complete_for_def eq by fastforce
qed

lemma fields_sync_category:
  "fs (fst (snd (sync_category item acc))) = fs (fst (snd acc)) \<and>
   json_file (fst (snd (sync_category item acc))) = json_file (fst (snd acc)) \<and>
   folder_to_watch (fst (snd (sync_category item acc))) = folder_to_watch (fst (snd acc)) \<and>
   next_addr (fst (snd (sync_category item acc))) = next_addr (fst (snd acc))"
proof -
  obtain cats st u where acc: "acc = (cats, st, u)" by (cases acc)
  show ?thesis
  proof (cases "map_of cats (fst item)")
    case None
    then show ?thesis by (simp add: acc sync_category_def Let_def)
  next
    case (Some v)
    show ?thesis
    proof (cases v)
      case (Dict b)
      obtain st2 u2 where r: "sync_subcategories (fst item) b (heap st (snd item)) (st, u) = (st2, u2)"
        by (cases "sync_subcategories (fst item) b (heap st (snd item)) (st, u)")
      from fields_sync_subcategories[of "fst item" b "heap st (snd item)" "(st, u)"] r
      show ?thesis using Some Dict by (simp add: acc sync_category_def Let_def)
    next
      case (Atom j)
      let ?st1 = "st\<lparr>events := events st @
                  [Print (NotADictionary (fst item)), Log Warning (NotADictionary (fst item))]\<rparr>"
      obtain st2 u2 where r: "sync_subcategories (fst item) (snd item) (heap st (snd item)) (?st1, True) = (st2, u2)"
        by (cases "sync_subcategories (fst item) (snd item) (heap st (snd item)) (?st1, True)")
      from fields_sync_subcategories[of "fst item" "snd item" "heap st (snd item)" "(?st1, True)"] r
      show ?thesis using Some Atom by (simp add: acc sync_category_def Let_def)
    qed
  qed
qed

lemma fields_sync_loop:
  "fs (fst (snd (sync_loop ds acc))) = fs (fst (snd acc)) \<and>
   json_file (fst (snd (sync_loop ds acc))) = json_file (fst (snd acc)) \<and>
   folder_to_watch (fst (snd (sync_loop ds acc))) = folder_to_watch (fst (snd acc)) \<and>
   next_addr (fst (snd (sync_loop ds acc))) = next_addr (fst (snd acc))"
  by (induction ds arbitrary: acc) (simp_all add: fields_sync_category)

lemma sync_categories_raises_from_dump:
  assumes "sync_categories os cats st = (Inl e, st')"
  shows "\<exists>j. fst (json_dump os j (json_file st) (fs st)) = Some e"
proof -
  obtain c1 s1 u1 where r: "sync_loop default_categories (cats, st, False) = (c1, s1, u1)"
    by (cases "sync_loop default_categories (cats, st, False)")
  from fields_sync_loop[of default_categories "(cats, st, False)"] r
  have f: "fs s1 = fs st" "json_file s1 = json_file st" by simp_all
  obtain x t where d: "json_dump os (dumps (heap s1) c1) (json_file st) (fs st) = (x, t)"
    by (cases "json_dump os (dumps (heap s1) c1) (json_file st) (fs st)")
  from assms r d have "x = Some e"
    by (cases u1; cases x) (simp_all add: sync_categories_def save_categories_def f)
  with d have "fst (json_dump os (dumps (heap s1) c1) (json_file st) (fs st)) = Some e" by simp
  then show ?thesis ..
qed

lemma new_organizer_stored:
  "default_addrs \<subseteq> {..<next_addr (new_organizer folder file fs0)} \<and>
   default_lists (heap (new_organizer folder file fs0))"
  by (simp add: default_addrs_def default_categories_def new_organizer_def default_lists_def
      default_heap_def)

section \<open>The loops of organise_downloads and organize\<close>
























section \<open>Reconciliation\<close>

lemma w_alloc: "alloc_entries w_L (heap w_st, next_addr w_st) = (w_cats, w_heap, 9)"
  by (simp add: w_L_def w_st_def new_organizer_def w_cats_def w_heap_def alloc_entries.simps)

lemma w_sync: "fst (sync_categories sim_os w_cats (w_st\<lparr>heap := w_heap, next_addr := 9\<rparr>)) = Inr w_cats1"
  by code_simp

text \<open>
  C1.  The reconciled schema is said to hold every extension the default lists.  It does not:
  \<^verbatim>\<open>sync_categories\<close> leaves a subcategory that is a list as it is, whatever is in it.
  The schema file gives \<^verbatim>\<open>Executables\<close> an empty list of \<^verbatim>\<open>Installers\<close>; the default lists
  \<^verbatim>\<open>.exe\<close> and \<^verbatim>\<open>.msi\<close> there.  After the organizer is constructed the list is still
  empty, and \<^verbatim>\<open>.exe\<close> matches nothing in the schema.
\<close>

theorem sync_keeps_short_extension_list:
  "fst (init sim_os ''/w'' ''/c.json'' c1_fs) = None \<and>
   map_of default_categories ''Executables'' = Some 2 \<and>
   map_of (default_heap 2) ''Installers'' = Some (JList [JStr ''.exe'', JStr ''.msi'']) \<and>
   map_of (categories c1_st) ''Executables'' = Some (Dict 8) \<and>
   map_of (heap c1_st 8) ''Installers'' = Some (JList []) \<and>
   resolve (heap c1_st) ''.exe'' (categories c1_st) = Inr None"
  by code_simp

text \<open>
  C2.  A schema is loaded into an organizer whose default dictionaries are in the store and
  hold lists, and \<^verbatim>\<open>sync_categories\<close> returns.  Then a second run of the loop on what it
  returned changes nothing and leaves \<^verbatim>\<open>updated\<close> false, and a second \<^verbatim>\<open>sync_categories\<close>
  returns the same schema in the same state: the store, the filesystem and the output are as
  they were, so nothing was written.  A new organizer is such an organizer
  (\<open>new_organizer_stored\<close>), and \<^verbatim>\<open>sync_categories\<close> returns unless the write raises
  (\<open>sync_categories_raises_from_dump\<close>).
\<close>

theorem sync_categories_idempotent:
  assumes alloc: "alloc_entries L (heap st, next_addr st) = (cats, h, n)"
    and stored: "default_addrs \<subseteq> {..<next_addr st}"
    and lists: "default_lists (heap st)"
    and first: "sync_categories os cats (st\<lparr>heap := h, next_addr := n\<rparr>) = (Inr cats1, st1)"
  shows "sync_loop default_categories (cats1, st1, False) = (cats1, st1, False) \<and>
         sync_categories os' cats1 st1 = (Inr cats1, st1)"
proof -
  let ?st = "st\<lparr>heap := h, next_addr := n\<rparr>"
  obtain c1 s1 u1 where r: "sync_loop default_categories (cats, ?st, False) = (c1, s1, u1)"
    by (cases "sync_loop default_categories (cats, ?st, False)")
  from sync_categories_Inr[OF first] r have eq: "c1 = cats1" "heap st1 = heap s1" by simp_all
  have fresh: "\<forall>a \<in> default_addrs. a < next_addr st" using stored by auto
  have sep: "separated cats" using separated_alloc[OF fresh, of L "heap st"] alloc by simp
  have dl: "default_lists (heap ?st)" using default_lists_alloc[OF fresh lists, of L] alloc by simp
  from sync_loop_complete[OF subset_refl sep dl r]
  have "\<forall>item \<in> set default_categories. complete_for cats1 (heap st1) item"
    by (simp add: eq)
  then have loop: "sync_loop default_categories (cats1, st1, False) = (cats1, st1, False)"
    by (rule sync_loop_noop)
  then show ?thesis by (simp add: sync_categories_def)
qed

theorem sync_categories_idempotent_witness:
  "alloc_entries w_L (heap w_st, next_addr w_st) = (w_cats, w_heap, 9) \<and>
   default_addrs \<subseteq> {..<next_addr w_st} \<and>
   default_lists (heap w_st) \<and>
   fst (sync_categories sim_os w_cats (w_st\<lparr>heap := w_heap, next_addr := 9\<rparr>)) = Inr w_cats1 \<and>
   sync_loop default_categories
     (w_cats1, snd (sync_categories sim_os w_cats (w_st\<lparr>heap := w_heap, next_addr := 9\<rparr>)), False) =
     (w_cats1, snd (sync_categories sim_os w_cats (w_st\<lparr>heap := w_heap, next_addr := 9\<rparr>)), False) \<and>
   sync_categories sim_os w_cats1
     (snd (sync_categories sim_os w_cats (w_st\<lparr>heap := w_heap, next_addr := 9\<rparr>))) =
     (Inr w_cats1, snd (sync_categories sim_os w_cats (w_st\<lparr>heap := w_heap, next_addr := 9\<rparr>)))"
proof -
  have h2: "default_addrs \<subseteq> {..<next_addr w_st}"
    by (simp add: default_addrs_def default_categories_def w_st_def new_organizer_def)
  have h3: "default_lists (heap w_st)"
    by (simp add: default_lists_def default_addrs_def default_categories_def w_st_def
        new_organizer_def default_heap_def)
  have h4: "sync_categories sim_os w_cats (w_st\<lparr>heap := w_heap, next_addr := 9\<rparr>) =
      (Inr w_cats1, snd (sync_categories sim_os w_cats (w_st\<lparr>heap := w_heap, next_addr := 9\<rparr>)))"
    using w_sync by (simp add: prod_eq_iff)
  from sync_categories_idempotent[OF w_alloc h2 h3 h4, of sim_os] w_alloc h2 h3 w_sync
  show ?thesis by simp
qed

text \<open>
  C3.  A schema is loaded and \<^verbatim>\<open>sync_categories\<close> returns.  Every category of the loaded
  schema is a category of the result.  A category that was a dictionary is still that
  dictionary, every subcategory it had is still a key of it, and a subcategory that was a
  list is still the same list, so every extension in it is still there.
\<close>

theorem sync_categories_keeps_loaded:
  assumes alloc: "alloc_entries L (heap st, next_addr st) = (cats, h, n)"
    and sync: "sync_categories os cats (st\<lparr>heap := h, next_addr := n\<rparr>) = (Inr cats', st')"
  shows "fst ` set L \<subseteq> fst ` set cats' \<and>
         (\<forall>c sub. map_of L c = Some (JDict sub) \<longrightarrow>
            (\<exists>x. map_of cats' c = Some (Dict x) \<and>
                 fst ` set sub \<subseteq> fst ` set (heap st' x) \<and>
                 (\<forall>s xs. map_of sub s = Some (JList xs) \<longrightarrow>
                    map_of (heap st' x) s = Some (JList xs))))"
proof -
  let ?st = "st\<lparr>heap := h, next_addr := n\<rparr>"
  obtain c1 s1 u1 where r: "sync_loop default_categories (cats, ?st, False) = (c1, s1, u1)"
    by (cases "sync_loop default_categories (cats, ?st, False)")
  from sync_categories_Inr[OF sync] r have eq: "c1 = cats'" "heap st' = heap s1" by simp_all
  have g: "grows cats h cats' (heap st')"
    using grows_sync_loop[OF r] by (simp add: eq)
  have keys: "fst ` set cats = fst ` set L"
    using alloc_entries_keys[of L "heap st" "next_addr st"] alloc
    by (metis fst_conv set_map)
  have 1: "fst ` set L \<subseteq> fst ` set cats'" using g keys unfolding grows_def by simp
  have 2: "\<exists>x. map_of cats' c = Some (Dict x) \<and> fst ` set sub \<subseteq> fst ` set (heap st' x) \<and>
               (\<forall>s xs. map_of sub s = Some (JList xs) \<longrightarrow> map_of (heap st' x) s = Some (JList xs))"
    if m: "map_of L c = Some (JDict sub)" for c sub
  proof -
    from alloc_entries_dict[OF m, of "heap st" "next_addr st"] alloc
    obtain x where x: "map_of cats c = Some (Dict x)" "h x = sub" by auto
    from g x(1) have "map_of cats' c = Some (Dict x)" unfolding grows_def by blast
    moreover from g have "fst ` set (h x) \<subseteq> fst ` set (heap st' x)" unfolding grows_def by blast
    moreover from g have "\<forall>s xs. map_of (h x) s = Some (JList xs) \<longrightarrow> map_of (heap st' x) s = Some (JList xs)"
      unfolding grows_def by blast
    ultimately show ?thesis using x(2) by auto
  qed
  from 1 2 show ?thesis by blast
qed

theorem sync_categories_keeps_loaded_witness:
  "alloc_entries w_L (heap w_st, next_addr w_st) = (w_cats, w_heap, 9) \<and>
   fst (sync_categories sim_os w_cats (w_st\<lparr>heap := w_heap, next_addr := 9\<rparr>)) = Inr w_cats1 \<and>
   map_of w_L ''TestCategory'' = Some (JDict [(''Subcategory'', JList [JStr ''.tmp''])]) \<and>
   map_of [(''Subcategory'', JList [JStr ''.tmp''])] ''Subcategory'' = Some (JList [JStr ''.tmp'']) \<and>
   fst ` set w_L \<subseteq> fst ` set w_cats1 \<and>
   (\<exists>x. map_of w_cats1 ''TestCategory'' = Some (Dict x) \<and>
        ''Subcategory'' \<in> fst ` set
           (heap (snd (sync_categories sim_os w_cats (w_st\<lparr>heap := w_heap, next_addr := 9\<rparr>))) x) \<and>
        map_of (heap (snd (sync_categories sim_os w_cats (w_st\<lparr>heap := w_heap, next_addr := 9\<rparr>))) x)
           ''Subcategory'' = Some (JList [JStr ''.tmp'']))"
proof -
  let ?r = "sync_categories sim_os w_cats (w_st\<lparr>heap := w_heap, next_addr := 9\<rparr>)"
  have h2: "?r = (Inr w_cats1, snd ?r)"
    using w_sync by (simp add: prod_eq_iff)
  have m1: "map_of w_L ''TestCategory'' = Some (JDict [(''Subcategory'', JList [JStr ''.tmp''])])"
    by (simp add: w_L_def)
  have m2: "map_of [(''Subcategory'', JList [JStr ''.tmp''])] ''Subcategory'' = Some (JList [JStr ''.tmp''])"
    by simp
  from sync_categories_keeps_loaded[OF w_alloc h2] m1 m2
  have "fst ` set w_L \<subseteq> fst ` set w_cats1"
    and "\<exists>x. map_of w_cats1 ''TestCategory'' = Some (Dict x) \<and>
        fst ` set [(''Subcategory'', JList [JStr ''.tmp''])] \<subseteq> fst ` set (heap (snd ?r) x) \<and>
        (\<forall>s xs. map_of [(''Subcategory'', JList [JStr ''.tmp''])] s = Some (JList xs) \<longrightarrow>
           map_of (heap (snd ?r) x) s = Some (JList xs))"
    by blast+
  then show ?thesis using w_alloc w_sync m1 m2 by fastforce
qed

section \<open>Resolution\<close>








section \<open>Moving\<close>







section \<open>Loading\<close>

text \<open>
  C7, as the code has it.  When the schema file does not exist and the write succeeds,
  \<^verbatim>\<open>load_categories\<close> returns a schema that reads as the default schema and has written
  exactly that to the schema file.  When the mapping file does not exist, \<^verbatim>\<open>load_mapping\<close>
  returns the built-in mapping and leaves the filesystem as it was.
\<close>

theorem load_without_file:
  "(\<not> path_exists os (json_file st) (fs st) \<and>
    json_dump os (default_schema (heap st)) (json_file st) (fs st) = (None, fs') \<longrightarrow>
    (\<exists>cats' st'. load_categories os st = (Inr cats', st') \<and>
        dumps (heap st') cats' = default_schema (heap st) \<and>
        fs st' = fs' \<and>
        events st' = events st @ [Print CategoriesSaved, Log Debug CategoriesSaved,
                                  Print NoJsonFileFound, Log Debug NoCategoriesJsonFound])) \<and>
   (\<not> path_exists os file fs0 \<longrightarrow> load_mapping os file fs0 = (Inr default_mapping, fs0))"
  by (auto simp: load_categories_def save_categories_def default_schema_def load_mapping_def Let_def)

theorem load_without_file_witness:
  "(\<exists>cats' st'. load_categories sim_os (new_organizer ''/w'' ''/c.json'' c8_fs) = (Inr cats', st') \<and>
        dumps (heap st') cats' = default_schema default_heap \<and>
        fs st' = c7_fs' \<and>
        events st' = [Print CategoriesSaved, Log Debug CategoriesSaved,
                      Print NoJsonFileFound, Log Debug NoCategoriesJsonFound]) \<and>
   load_mapping sim_os ''/m.json'' c7_fs = (Inr default_mapping, c7_fs) \<and>
   sim_json_load ''/c.json'' c7_fs' = Inr (default_schema default_heap)"
proof -
  let ?st = "new_organizer ''/w'' ''/c.json'' c8_fs :: sim_fs organizer"
  have h0: "heap ?st = default_heap" "json_file ?st = ''/c.json''" "fs ?st = c8_fs" "events ?st = []"
    by (simp_all add: new_organizer_def)
  have h1: "\<not> path_exists sim_os (json_file ?st) (fs ?st)" by code_simp
  have h2a: "fst (json_dump sim_os (default_schema default_heap) ''/c.json'' c8_fs) = None" by code_simp
  have h2: "json_dump sim_os (default_schema (heap ?st)) (json_file ?st) (fs ?st) = (None, c7_fs')"
    using h2a by (simp add: h0 c7_fs'_def prod_eq_iff)
  have k1: "\<not> path_exists sim_os ''/m.json'' c7_fs" by code_simp
  have r: "sim_json_load ''/c.json'' c7_fs' = Inr (default_schema default_heap)" by code_simp
  from load_without_file[of sim_os ?st c7_fs' "''/m.json''" c7_fs] h1 h2 k1
  have "(\<exists>cats' st'. load_categories sim_os ?st = (Inr cats', st') \<and>
        dumps (heap st') cats' = default_schema (heap ?st) \<and>
        fs st' = c7_fs' \<and>
        events st' = events ?st @ [Print CategoriesSaved, Log Debug CategoriesSaved,
                      Print NoJsonFileFound, Log Debug NoCategoriesJsonFound])"
    and "load_mapping sim_os ''/m.json'' c7_fs = (Inr default_mapping, c7_fs)"
    by blast+
  then show ?thesis using r by (simp add: h0)
qed

text \<open>
  C7, as stated, says that \<^verbatim>\<open>load_mapping\<close> writes the default back.  It writes nothing:
  after it the mapping file still does not exist.
\<close>

theorem load_mapping_writes_nothing:
  "\<not> sim_exists ''/m.json'' c7_fs \<and>
   fst (load_mapping sim_os ''/m.json'' c7_fs) = Inr default_mapping \<and>
   snd (load_mapping sim_os ''/m.json'' c7_fs) = c7_fs \<and>
   \<not> sim_exists ''/m.json'' (snd (load_mapping sim_os ''/m.json'' c7_fs))"
  by code_simp

text \<open>
  C8.  The default schema is said never to change.  With no schema file,
  \<^verbatim>\<open>self.categories\<close> holds the default's own dictionaries, and the first file of an unknown
  type adds its extension to the default's \<^verbatim>\<open>Other\<close>: the dictionary at address 7 was
  empty after construction and holds \<^verbatim>\<open>.xyz\<close> after \<^verbatim>\<open>organise_downloads\<close>.
\<close>

theorem default_other_is_mutated:
  "fst (init sim_os ''/w'' ''/c.json'' c8_fs) = None \<and>
   map_of default_categories ''Other'' = Some 7 \<and>
   map_of (categories c8_st) ''Other'' = Some (Dict 7) \<and>
   heap c8_st 7 = [] \<and>
   fst (organise_downloads sim_os ''/w/a.xyz'' c8_st) = None \<and>
   heap (snd (organise_downloads sim_os ''/w/a.xyz'' c8_st)) 7 = [(''.xyz'', JList [])] \<and>
   default_schema (heap (snd (organise_downloads sim_os ''/w/a.xyz'' c8_st))) \<noteq>
   default_schema (heap c8_st)"
  by code_simp

section \<open>Unknown extensions\<close>

text \<open>
  C9.  A file of an unknown type is said to be moved into \<^verbatim>\<open>Other\<close>.  When that folder
  does not exist yet, \<^verbatim>\<open>organise_downloads\<close> saves the schema, makes the folder and then
  raises \<^verbatim>\<open>UnboundLocalError\<close> on line 256: the file stays where it was, and
  \<^verbatim>\<open>organize_files_in_directory\<close> ends there, before the next file.
\<close>

theorem missing_other_folder_raises:
  "fst (init sim_os ''/w'' ''/c.json'' c9_fs) = None \<and>
   \<not> sim_exists ''/w/Other'' (fs c9_st) \<and>
   resolve (heap c9_st) ''.xyz'' (categories c9_st) = Inr None \<and>
   fst (organise_downloads sim_os ''/w/a.xyz'' c9_st) = Some UnboundLocalError \<and>
   sim_isfile ''/w/a.xyz'' (fs (snd (organise_downloads sim_os ''/w/a.xyz'' c9_st))) \<and>
   sim_isdir ''/w/Other'' (fs (snd (organise_downloads sim_os ''/w/a.xyz'' c9_st))) \<and>
   \<not> sim_exists ''/w/Other/a.xyz'' (fs (snd (organise_downloads sim_os ''/w/a.xyz'' c9_st))) \<and>
   fst (organize_files_in_directory sim_os c9_st) = Some UnboundLocalError \<and>
   sim_isfile ''/w/b.pdf'' (fs (snd (organize_files_in_directory sim_os c9_st)))"
  by code_simp



end
